theory Spec2Isabelle
  imports Complex_Main "HOL-Library.Word"
begin

section \<open>Discovery UI: shallow embedding of script-discovery-v2.js\<close>

text \<open>
  Conventions of the embedding.
  \<^item> A JavaScript string is a sequence of UTF-16 code units: a list of 16-bit words.
    String literals of the source are written as HOL strings and embedded by \<open>js\<close>.
  \<^item> \<open>undefined\<close> and \<open>null\<close> results are \<open>None\<close>.
  \<^item> JavaScript numbers that are counters or indices are natural numbers; where the
    source can produce \<open>NaN\<close> the type \<open>jsnum\<close> has a constructor for it.
    Coordinates are real numbers: additions and multiplications are exact, and the
    results of \<open>Math.cos\<close>, \<open>Math.sin\<close> and \<open>Math.random\<close> are parameters.
\<close>

type_synonym jsstring = "16 word list"

definition js :: "string \<Rightarrow> jsstring" where
  "js s = map (\<lambda>c. of_nat (of_char c)) s"

subsection \<open>Page size (getWordcloudItemsPerPage)\<close>

text \<open>The argument is \<open>window.innerWidth\<close>, an integer number of pixels.\<close>

definition getWordcloudItemsPerPage :: "int \<Rightarrow> nat" where
  "getWordcloudItemsPerPage innerWidth =
     (if innerWidth < 480 then 10
      else if innerWidth < 768 then 12
      else 14)"

subsection \<open>Colours (getPhilosopherColor, getThemeColor)\<close>

text \<open>
  \<open>name.charCodeAt(0)\<close> is the first code unit, or \<open>NaN\<close> for the empty string;
  \<open>NaN % n\<close> is \<open>NaN\<close> and \<open>colors[NaN]\<close> is \<open>undefined\<close>.
\<close>

definition philosopher_colors :: "string list" where
  "philosopher_colors =
     [''#5ba3d0'', ''#7ec8a0'', ''#c9a8d8'', ''#9fb8d4'',
      ''#a8d4a0'', ''#d4a8c9'', ''#6b9cbd'', ''#7fb8a0'']"

definition theme_colors :: "string list" where
  "theme_colors =
     [''#d4a8b8'', ''#b8d4a8'', ''#a8b8d4'', ''#d4c9a8'', ''#c9a8d4'', ''#a8d4c9'']"

fun charCodeAt0 :: "jsstring \<Rightarrow> nat option" where
  "charCodeAt0 [] = None"
| "charCodeAt0 (c # _) = Some (unat c)"

definition palette_lookup :: "string list \<Rightarrow> jsstring \<Rightarrow> string option" where
  "palette_lookup colors name =
     (case charCodeAt0 name of
        None \<Rightarrow> None
      | Some code \<Rightarrow>
          (let i = code mod length colors
           in if i < length colors then Some (colors ! i) else None))"

definition getPhilosopherColor :: "jsstring \<Rightarrow> string option" where
  "getPhilosopherColor name = palette_lookup philosopher_colors name"

definition getThemeColor :: "jsstring \<Rightarrow> string option" where
  "getThemeColor name = palette_lookup theme_colors name"

subsection \<open>Word cloud items and the padding of renderWordcloud\<close>

datatype item_type = Philosopher | Theme

record item =
  name :: jsstring
  type :: item_type
  color :: "string option"

record config =
  philosophers :: "jsstring list"
  themes :: "jsstring list"

definition philosopher_item :: "jsstring \<Rightarrow> item" where
  "philosopher_item p = \<lparr>name = p, type = Philosopher, color = getPhilosopherColor p\<rparr>"

definition theme_item :: "jsstring \<Rightarrow> item" where
  "theme_item t = \<lparr>name = t, type = Theme, color = getThemeColor t\<rparr>"

definition mixed_items :: "config \<Rightarrow> item list" where
  "mixed_items cfg = map philosopher_item (philosophers cfg) @ map theme_item (themes cfg)"

text \<open>
  Lines 207 to 212: \<open>allItems.slice(0, needed)\<close> is \<open>take needed allItems\<close>; a slice
  past the end of an array stops at its end.
\<close>

definition ensure_minimum :: "'a list \<Rightarrow> 'a list" where
  "ensure_minimum allItems =
     (if length allItems < 5
      then (let needed = 5 - length allItems;
                duplicated = take needed allItems
            in allItems @ duplicated)
      else allItems)"

definition initial_allItems :: "config \<Rightarrow> item list" where
  "initial_allItems cfg = ensure_minimum (mixed_items cfg)"

text \<open>
  The padding as the specification words it: entries are taken cyclically from the
  front of the source list until five entries are present.
\<close>

definition cyclic_padding :: "'a list \<Rightarrow> 'a list" where
  "cyclic_padding xs =
     xs @ map (\<lambda>k. xs ! (k mod length xs)) [0 ..< 5 - length xs]"

subsection \<open>Pagination state and the selection of the page\<close>

text \<open>
  A number of the source that is a page index: a natural number, or \<open>NaN\<close>.
  \<open>NaN + 1\<close> and \<open>NaN % n\<close> are \<open>NaN\<close>, and so is \<open>a % 0\<close>.
\<close>

datatype jsnum = Num nat | NaN

fun js_succ :: "jsnum \<Rightarrow> jsnum" where
  "js_succ (Num a) = Num (a + 1)"
| "js_succ NaN = NaN"

fun js_mod :: "jsnum \<Rightarrow> nat \<Rightarrow> jsnum" where
  "js_mod (Num a) b = (if b = 0 then NaN else Num (a mod b))"
| "js_mod NaN b = NaN"

record wordcloudState =
  allItems :: "item list"
  currentPageItems :: "item list"
  currentPageIndex :: jsnum

text \<open>\<open>Math.ceil(wordcloudState.allItems.length / WORDCLOUD_ITEMS_PER_PAGE)\<close>\<close>

definition totalPages :: "nat \<Rightarrow> wordcloudState \<Rightarrow> nat" where
  "totalPages itemsPerPage st =
     nat \<lceil>real (length (allItems st)) / real itemsPerPage\<rceil>"

text \<open>
  Lines 300 to 302 of displayWordcloudPage. \<open>slice(startIdx, endIdx)\<close> clips both
  ends to the array, and converts a \<open>NaN\<close> bound to 0.
\<close>

fun slice_page :: "nat \<Rightarrow> jsnum \<Rightarrow> 'a list \<Rightarrow> 'a list" where
  "slice_page itemsPerPage (Num i) xs = take itemsPerPage (drop (i * itemsPerPage) xs)"
| "slice_page itemsPerPage NaN xs = []"

definition select_page :: "nat \<Rightarrow> wordcloudState \<Rightarrow> wordcloudState" where
  "select_page itemsPerPage st =
     st\<lparr>currentPageItems := slice_page itemsPerPage (currentPageIndex st) (allItems st)\<rparr>"

subsection \<open>Video identifier (extractYouTubeVideoId)\<close>

text \<open>
  The object that \<open>new URL(url)\<close> builds, as far as the function reads it:
  \<open>searchParams\<close> is the list of name and value pairs of the query, in order.
\<close>

record url =
  hostname :: jsstring
  pathname :: jsstring
  searchParams :: "(jsstring \<times> jsstring) list"

text \<open>\<open>haystack.includes(needle)\<close>: the needle occurs at some position.\<close>

fun starts_with :: "'a list \<Rightarrow> 'a list \<Rightarrow> bool" where
  "starts_with xs [] = True"
| "starts_with [] (n # ns) = False"
| "starts_with (x # xs) (n # ns) = (x = n \<and> starts_with xs ns)"

fun js_includes :: "'a list \<Rightarrow> 'a list \<Rightarrow> bool" where
  "js_includes [] needle = starts_with [] needle"
| "js_includes (x # xs) needle = (starts_with (x # xs) needle \<or> js_includes xs needle)"

text \<open>\<open>searchParams.get(key)\<close>: the value of the first pair with that key, or null.\<close>

definition searchParams_get :: "(jsstring \<times> jsstring) list \<Rightarrow> jsstring \<Rightarrow> jsstring option" where
  "searchParams_get params key = map_of params key"

text \<open>\<open>value || null\<close>: null and the empty string are falsy.\<close>

fun or_null :: "jsstring option \<Rightarrow> jsstring option" where
  "or_null None = None"
| "or_null (Some s) = (if s = [] then None else Some s)"

text \<open>
  The constructor \<open>URL\<close> belongs to the platform, so it is a parameter: it returns
  \<open>None\<close> where \<open>new URL(url)\<close> throws, which the \<open>catch\<close> turns into null.
  \<open>pathname.substring(1)\<close> is the path without its first code unit.
\<close>

definition extractYouTubeVideoId :: "(jsstring \<Rightarrow> url option) \<Rightarrow> jsstring \<Rightarrow> jsstring option" where
  "extractYouTubeVideoId URL u =
     (case URL u of
        None \<Rightarrow> None
      | Some urlObj \<Rightarrow>
          if js_includes (hostname urlObj) (js ''youtube.com'')
          then or_null (searchParams_get (searchParams urlObj) (js ''v''))
          else if js_includes (hostname urlObj) (js ''youtu.be'')
          then Some (drop 1 (pathname urlObj))
          else None)"

text \<open>
  The function as the specification words it: the \<open>v\<close> parameter, or the first
  segment of the path.
\<close>

definition first_path_segment :: "jsstring \<Rightarrow> jsstring" where
  "first_path_segment p = takeWhile (\<lambda>c. c \<noteq> 0x2F) (drop 1 p)"

definition videoId_spec :: "(jsstring \<Rightarrow> url option) \<Rightarrow> jsstring \<Rightarrow> jsstring option" where
  "videoId_spec URL u =
     (case URL u of
        None \<Rightarrow> None
      | Some urlObj \<Rightarrow>
          if js_includes (hostname urlObj) (js ''youtube.com'')
          then searchParams_get (searchParams urlObj) (js ''v'')
          else if js_includes (hostname urlObj) (js ''youtu.be'')
          then Some (first_path_segment (pathname urlObj))
          else None)"

text \<open>
  An instance of the parameter, for evaluating examples: it reads addresses of the form
  \<open>https://host/path?name=value&...#fragment\<close> (or \<open>http\<close>), and rejects every other
  string. On such an address with a lower-case host and no port, credentials or
  escapes it yields the host name, path and query pairs of the platform's parser.
\<close>

fun strip_prefix :: "'a list \<Rightarrow> 'a list \<Rightarrow> 'a list option" where
  "strip_prefix [] xs = Some xs"
| "strip_prefix (p # ps) [] = None"
| "strip_prefix (p # ps) (x # xs) = (if p = x then strip_prefix ps xs else None)"

fun split_on :: "'a \<Rightarrow> 'a list \<Rightarrow> 'a list list" where
  "split_on sep [] = [[]]"
| "split_on sep (x # xs) =
     (if x = sep then [] # split_on sep xs
      else (case split_on sep xs of
              [] \<Rightarrow> [[x]]
            | piece # pieces \<Rightarrow> (x # piece) # pieces))"

definition parse_pair :: "jsstring \<Rightarrow> jsstring \<times> jsstring" where
  "parse_pair s = (takeWhile (\<lambda>c. c \<noteq> 0x3D) s, drop 1 (dropWhile (\<lambda>c. c \<noteq> 0x3D) s))"

definition parse_query :: "jsstring \<Rightarrow> (jsstring \<times> jsstring) list" where
  "parse_query q = map parse_pair (filter (\<lambda>piece. piece \<noteq> []) (split_on 0x26 q))"

definition parse_after_scheme :: "jsstring \<Rightarrow> url option" where
  "parse_after_scheme rest =
     (let no_fragment = takeWhile (\<lambda>c. c \<noteq> 0x23) rest;
          before_query = takeWhile (\<lambda>c. c \<noteq> 0x3F) no_fragment;
          query = drop 1 (dropWhile (\<lambda>c. c \<noteq> 0x3F) no_fragment);
          host = takeWhile (\<lambda>c. c \<noteq> 0x2F) before_query;
          path = dropWhile (\<lambda>c. c \<noteq> 0x2F) before_query
      in if host = [] then None
         else Some \<lparr>hostname = host,
                    pathname = (if path = [] then [0x2F] else path),
                    searchParams = parse_query query\<rparr>)"

definition URL_simple :: "jsstring \<Rightarrow> url option" where
  "URL_simple s =
     (case strip_prefix (js ''https://'') s of
        Some rest \<Rightarrow> parse_after_scheme rest
      | None \<Rightarrow>
          (case strip_prefix (js ''http://'') s of
             Some rest \<Rightarrow> parse_after_scheme rest
           | None \<Rightarrow> None))"

subsection \<open>Selection state and the discovery search (discover, search button)\<close>

text \<open>
  The global \<open>appState\<close>, and the part of the page that the handlers change: the step
  that showStep displays, the loading overlay (absent, hidden or shown), the alerts
  raised so far, and the cards that renderResults wrote.
\<close>

record appState =
  selectedMain :: "jsstring option"
  selectedMainType :: "item_type option"
  selectedSub :: "jsstring option"
  lastSearchFallbackLevel :: "int option"
  lastSearchMessage :: "jsstring option"

datatype alert = SelectMainFirst | SearchFailed

record 'e page =
  step :: nat
  loading_overlay :: "bool option"
  alerts :: "alert list"
  cards :: "'e list"

text \<open>The request body of \<open>POST /api/discover\<close>.\<close>

record payload =
  payload_philosophers :: "jsstring list"
  payload_themes :: "jsstring list"
  search_query :: jsstring
  top_k :: nat

text \<open>
  What \<open>fetch\<close> and \<open>res.json()\<close> can deliver: the request is rejected (a network
  error), or a response arrives with its \<open>ok\<close> flag (a 2xx status) and a body that
  either is no JSON or is an object, of which the function reads the fields \<open>error\<close>,
  \<open>results\<close>, \<open>fallback_level\<close> and \<open>message\<close> (each possibly missing).
\<close>

record 'e body_object =
  error :: "jsstring option"
  results :: "'e list option"
  fallback_level :: "int option"
  message :: "jsstring option"

datatype 'e body = NotJson | Object "'e body_object"

datatype 'e fetch_outcome = NetworkError | Response bool "'e body"

definition showLoading :: "bool \<Rightarrow> 'e page \<Rightarrow> 'e page" where
  "showLoading show pg = pg\<lparr>loading_overlay := map_option (\<lambda>_. show) (loading_overlay pg)\<rparr>"

definition raise_alert :: "alert \<Rightarrow> 'e page \<Rightarrow> 'e page" where
  "raise_alert a pg = pg\<lparr>alerts := alerts pg @ [a]\<rparr>"

definition showStep :: "nat \<Rightarrow> 'e page \<Rightarrow> 'e page" where
  "showStep stepNumber pg = pg\<lparr>step := stepNumber\<rparr>"

definition renderResults :: "'e list \<Rightarrow> 'e page \<Rightarrow> 'e page" where
  "renderResults rs pg = pg\<lparr>cards := rs\<rparr>"

text \<open>
  The body of the \<open>try\<close> block of discover: \<open>Inl ()\<close> is a thrown exception (a rejected
  fetch, a body that is no JSON, the error thrown for a response that is not ok, or
  the type error of reading \<open>length\<close> of a missing \<open>results\<close>), \<open>Inr\<close> the returned
  results together with the updated state.
\<close>

definition discover_try ::
  "(payload \<Rightarrow> 'e fetch_outcome) \<Rightarrow> payload \<Rightarrow> appState \<Rightarrow> unit + ('e list \<times> appState)" where
  "discover_try fetch pl app =
     (case fetch pl of
        NetworkError \<Rightarrow> Inl ()
      | Response ok b \<Rightarrow>
          if \<not> ok then Inl ()
          else (case b of
                  NotJson \<Rightarrow> Inl ()
                | Object data \<Rightarrow>
                    (case results data of
                       None \<Rightarrow> Inl ()
                     | Some rs \<Rightarrow>
                         Inr (rs, app\<lparr>lastSearchFallbackLevel := fallback_level data,
                                      lastSearchMessage := message data\<rparr>))))"

text \<open>
  discover: the loading overlay is shown, the \<open>try\<close> block runs, \<open>catch\<close> raises the
  alert and returns null, and \<open>finally\<close> hides the overlay on both paths.
\<close>

definition discover ::
  "(payload \<Rightarrow> 'e fetch_outcome) \<Rightarrow> jsstring list \<Rightarrow> jsstring list \<Rightarrow> jsstring \<Rightarrow>
   appState \<times> 'e page \<Rightarrow> 'e list option \<times> appState \<times> 'e page" where
  "discover fetch ps ts subtheme st =
     (let app = fst st;
          pg = showLoading True (snd st);
          pl = \<lparr>payload_philosophers = ps, payload_themes = ts,
                search_query = subtheme, top_k = 5\<rparr>
      in (case discover_try fetch pl app of
            Inr (rs, app') \<Rightarrow> (Some rs, app', showLoading False pg)
          | Inl _ \<Rightarrow> (None, app, showLoading False (raise_alert SearchFailed pg))))"

text \<open>
  The click handler of the search button (lines 624 to 647). A null or empty
  \<open>selectedMain\<close> is falsy; an array of results is truthy even when it is empty.
\<close>

definition search_click ::
  "(payload \<Rightarrow> 'e fetch_outcome) \<Rightarrow> appState \<times> 'e page \<Rightarrow> appState \<times> 'e page" where
  "search_click fetch st =
     (case selectedMain (fst st) of
        None \<Rightarrow> (fst st, raise_alert SelectMainFirst (snd st))
      | Some main \<Rightarrow>
          if main = [] then (fst st, raise_alert SelectMainFirst (snd st))
          else
            (let ps = (if selectedMainType (fst st) = Some Philosopher then [main] else []);
                 ts = (if selectedMainType (fst st) = Some Theme then [main] else []);
                 sub = (case selectedSub (fst st) of None \<Rightarrow> [] | Some s \<Rightarrow> s)
             in (case discover fetch ps ts sub st of
                   (None, app', pg') \<Rightarrow> (app', pg')
                 | (Some rs, app', pg') \<Rightarrow> (app', showStep 3 (renderResults rs pg')))))"

text \<open>The request fails: a network error, or a response whose status is not 2xx.\<close>

fun request_failed :: "'e fetch_outcome \<Rightarrow> bool" where
  "request_failed NetworkError = True"
| "request_failed (Response ok b) = (\<not> ok)"

text \<open>
  Example: a philosopher and a sub-theme are selected on step 2, the overlay is
  hidden, and the server answers every request with status 500 and an error object.
\<close>

definition step2_app :: appState where
  "step2_app =
     \<lparr>selectedMain = Some [0x30AB, 0x30F3, 0x30C8], selectedMainType = Some Philosopher,
      selectedSub = Some [0x6B74, 0x53F2], lastSearchFallbackLevel = None,
      lastSearchMessage = None\<rparr>"

definition step2_page :: "nat page" where
  "step2_page = \<lparr>step = 2, loading_overlay = Some False, alerts = [], cards = []\<rparr>"

definition http_500 :: "payload \<Rightarrow> nat fetch_outcome" where
  "http_500 pl =
     Response False
       (Object \<lparr>error = Some (js ''internal error''), results = None,
                fallback_level = None, message = None\<rparr>)"

subsection \<open>Placement of the items of a page (displayWordcloudPage)\<close>

text \<open>
  What the placement reads from the platform: \<open>Math.cos\<close> and \<open>Math.sin\<close>, the values
  that successive calls of \<open>Math.random\<close> return (call number 0 is the first call
  after the shuffle), the result of the randomised \<open>sort\<close> that shuffles the page, and
  the size of the container element in pixels. Every theorem below holds for all
  values of these parameters.
\<close>

record platform =
  Math_cos :: "real \<Rightarrow> real"
  Math_sin :: "real \<Rightarrow> real"
  Math_random :: "nat \<Rightarrow> real"
  shuffle :: "item list \<Rightarrow> item list"
  clientWidth :: int
  clientHeight :: int

definition containerWidth :: "platform \<Rightarrow> real" where
  "containerWidth pf = real_of_int (clientWidth pf) - 15"

definition containerHeight :: "platform \<Rightarrow> real" where
  "containerHeight pf = real_of_int (clientHeight pf) - 15"

definition isMobile :: "platform \<Rightarrow> bool" where
  "isMobile pf = (containerWidth pf < 768)"

definition isSmallMobile :: "platform \<Rightarrow> bool" where
  "isSmallMobile pf = (containerWidth pf < 480)"

text \<open>An entry of the array \<open>placed\<close>.\<close>

record placement =
  box_x :: real
  box_y :: real
  box_width :: real
  box_height :: real

text \<open>getRandomSize, as a function of the value that its call of \<open>Math.random\<close> returns.\<close>

definition getRandomSize :: "real \<Rightarrow> nat" where
  "getRandomSize rand =
     (if rand < 0.4 then 2
      else if rand < 0.7 then 3
      else if rand < 0.85 then 1
      else if rand < 0.95 then 4
      else 5)"

text \<open>getItemWidth: \<open>widths[size - 1] || 120\<close>; an index outside the array gives 120.\<close>

definition getItemWidth :: "nat \<Rightarrow> real" where
  "getItemWidth sz =
     (let widths = [80, 100, 120, 140, 160]
      in if 1 \<le> sz \<and> sz - 1 < length widths then widths ! (sz - 1) else 120)"

definition itemHeight :: real where
  "itemHeight = 40"

definition isCollidingStrict :: "real \<Rightarrow> real \<Rightarrow> real \<Rightarrow> real \<Rightarrow> placement list \<Rightarrow> bool" where
  "isCollidingStrict x y width height pls =
     (let padding = 15
      in list_ex (\<lambda>entry.
           \<not> (x + width + padding < box_x entry \<or>
              x > box_x entry + box_width entry + padding \<or>
              y + height + padding < box_y entry \<or>
              y > box_y entry + box_height entry + padding)) pls)"

text \<open>
  The body of the \<open>do\<close> loop (lines 333 to 342): the candidate position computed from
  the calls number \<open>k\<close> and \<open>k + 1\<close> of \<open>Math.random\<close>.
\<close>

definition candidate :: "platform \<Rightarrow> real \<Rightarrow> real \<Rightarrow> real \<Rightarrow> nat \<Rightarrow> real \<times> real" where
  "candidate pf ang rad itemWidth k =
     (let angleOffset = (Math_random pf k - 0.5) * (if isSmallMobile pf then 0.3 else 0.5);
          radiusOffset = (Math_random pf (k + 1) - 0.5) * (if isSmallMobile pf then 40 else 60);
          centerX = containerWidth pf / 2;
          centerY = containerHeight pf / 2;
          x = centerX + Math_cos pf (ang + angleOffset) * (rad + radiusOffset) - itemWidth / 2;
          y = centerY + Math_sin pf (ang + angleOffset) * (rad + radiusOffset) - itemHeight / 2
      in (max 5 (min x (containerWidth pf - itemWidth - 5)),
          max 5 (min y (containerHeight pf - itemHeight - 5))))"

text \<open>
  The \<open>do ... while\<close> loop: \<open>attempts\<close> is the counter before the iteration, \<open>k\<close> the
  number of calls of \<open>Math.random\<close> made so far. The result is the last candidate, the
  final value of \<open>attempts\<close> and the number of calls made.
\<close>

function attempt_loop ::
  "platform \<Rightarrow> real \<Rightarrow> real \<Rightarrow> real \<Rightarrow> placement list \<Rightarrow> nat \<Rightarrow> nat \<Rightarrow> (real \<times> real) \<times> nat \<times> nat" where
  "attempt_loop pf ang rad itemWidth pls attempts k =
     (let xy = candidate pf ang rad itemWidth k;
          attempts' = attempts + 1
      in if isCollidingStrict (fst xy) (snd xy) itemWidth itemHeight pls \<and> attempts' < 20
         then attempt_loop pf ang rad itemWidth pls attempts' (k + 2)
         else (xy, attempts', k + 2))"
  by pat_completeness auto
termination
  by (relation "measure (\<lambda>(pf, ang, rad, itemWidth, pls, attempts, k). 20 - attempts)") auto

declare attempt_loop.simps [simp del]

text \<open>
  The variables of displayWordcloudPage that the \<open>forEach\<close> callback updates, the
  elements appended to the container (item, size class and position), and the number
  of calls of \<open>Math.random\<close> made so far.
\<close>

record loop_state =
  placed :: "placement list"
  angle :: real
  radius :: real
  maxY :: real
  elements :: "(item \<times> nat \<times> placement) list"
  calls :: nat

definition initial_loop_state :: "platform \<Rightarrow> loop_state" where
  "initial_loop_state pf =
     \<lparr>placed = [], angle = 0, radius = (if isMobile pf then 50 else 80), maxY = 0,
      elements = [], calls = 0\<rparr>"

text \<open>
  The callback of \<open>forEach\<close> (lines 324 to 372). A placed item costs one more call of
  \<open>Math.random\<close>, for the delay of its animation.
\<close>

definition place_item :: "platform \<Rightarrow> loop_state \<Rightarrow> item \<Rightarrow> loop_state" where
  "place_item pf st it =
     (let sz = getRandomSize (Math_random pf (calls st));
          itemWidth = getItemWidth sz;
          r = attempt_loop pf (angle st) (radius st) itemWidth (placed st) 0 (calls st + 1);
          x = fst (fst r);
          y = snd (fst r);
          attempts = fst (snd r);
          k = snd (snd r);
          box = \<lparr>box_x = x, box_y = y, box_width = itemWidth, box_height = itemHeight\<rparr>;
          st1 = (if attempts < 20
                 then st\<lparr>placed := placed st @ [box],
                         maxY := max (maxY st) (y + itemHeight),
                         elements := elements st @ [(it, sz, box)],
                         calls := k + 1\<rparr>
                 else st\<lparr>calls := k\<rparr>)
      in st1\<lparr>angle := angle st + (0.5 + Math_random pf (calls st1) * 0.3),
              radius := radius st + ((if isMobile pf then 12 else 20)
                          + Math_random pf (calls st1 + 1) * (if isMobile pf then 8 else 15)),
              calls := calls st1 + 2\<rparr>)"

definition place_all :: "platform \<Rightarrow> item list \<Rightarrow> loop_state" where
  "place_all pf shuffled = foldl (place_item pf) (initial_loop_state pf) shuffled"

text \<open>
  displayWordcloudPage for an existing container: the page is selected, shuffled in
  place and laid out.
\<close>

definition displayWordcloudPage ::
  "platform \<Rightarrow> nat \<Rightarrow> wordcloudState \<Rightarrow> wordcloudState \<times> loop_state" where
  "displayWordcloudPage pf itemsPerPage st =
     (let st' = select_page itemsPerPage st;
          shuffled = shuffle pf (currentPageItems st')
      in (st'\<lparr>currentPageItems := shuffled\<rparr>, place_all pf shuffled))"

subsection \<open>The "next" button and the state after renderWordcloud\<close>

text \<open>
  The click handler of the button (line 240): the index is advanced, then
  displayWordcloudPage selects, shuffles and lays out the page. No statement of the
  handler can throw on these data, so the model has no error result.
\<close>

definition nextPage :: "platform \<Rightarrow> nat \<Rightarrow> wordcloudState \<Rightarrow> wordcloudState" where
  "nextPage pf itemsPerPage st =
     fst (displayWordcloudPage pf itemsPerPage
            (st\<lparr>currentPageIndex :=
                  js_mod (js_succ (currentPageIndex st)) (totalPages itemsPerPage st)\<rparr>))"

text \<open>The state that renderWordcloud stores (lines 216 and 217) and displays (line 226).\<close>

definition renderWordcloud_state :: "platform \<Rightarrow> nat \<Rightarrow> config \<Rightarrow> wordcloudState" where
  "renderWordcloud_state pf itemsPerPage cfg =
     fst (displayWordcloudPage pf itemsPerPage
            \<lparr>allItems = initial_allItems cfg, currentPageItems = [],
             currentPageIndex = Num 0\<rparr>)"

text \<open>
  The page count as the specification defines it: the ceiling of the quotient, and 1
  for an empty item list.
\<close>

definition pageCount_spec :: "nat \<Rightarrow> wordcloudState \<Rightarrow> nat" where
  "pageCount_spec itemsPerPage st =
     (if allItems st = [] then 1 else totalPages itemsPerPage st)"

text \<open>Example states: fifteen items on the second page of two, and no item at all.\<close>

definition fifteen_items_page1 :: wordcloudState where
  "fifteen_items_page1 =
     \<lparr>allItems = replicate 15 (philosopher_item [0x30AB, 0x30F3, 0x30C8]),
      currentPageItems = replicate 5 (philosopher_item [0x30AB, 0x30F3, 0x30C8]),
      currentPageIndex = Num 1\<rparr>"

definition empty_config :: config where
  "empty_config = \<lparr>philosophers = [], themes = []\<rparr>"

text \<open>
  Notions of the specification: the box of a placement expanded by a padding on all
  sides, intersection of two (closed) boxes, and a box that lies inside the bounds
  with a margin of 5.
\<close>

definition expand :: "real \<Rightarrow> placement \<Rightarrow> placement" where
  "expand d p =
     \<lparr>box_x = box_x p - d, box_y = box_y p - d,
      box_width = box_width p + 2 * d, box_height = box_height p + 2 * d\<rparr>"

definition boxes_intersect :: "placement \<Rightarrow> placement \<Rightarrow> bool" where
  "boxes_intersect a b =
     (box_x a \<le> box_x b + box_width b \<and> box_x b \<le> box_x a + box_width a \<and>
      box_y a \<le> box_y b + box_height b \<and> box_y b \<le> box_y a + box_height a)"

definition inside_bounds :: "platform \<Rightarrow> placement \<Rightarrow> bool" where
  "inside_bounds pf p =
     (5 \<le> box_x p \<and> 5 \<le> box_y p \<and>
      box_x p + box_width p \<le> containerWidth pf - 5 \<and>
      box_y p + box_height p \<le> containerHeight pf - 5)"

text \<open>Two boxes are more than \<open>d\<close> apart, horizontally or vertically.\<close>

definition separated :: "real \<Rightarrow> placement \<Rightarrow> placement \<Rightarrow> bool" where
  "separated d a b =
     (box_x a + box_width a + d < box_x b \<or> box_x b + box_width b + d < box_x a \<or>
      box_y a + box_height a + d < box_y b \<or> box_y b + box_height b + d < box_y a)"

text \<open>
  Example inputs of the placement: a container of 100 by 195 pixels (bounds 85 by
  180) with the platform's cosine and sine, two items, and a sequence of random
  values that is 1/2 everywhere except for the two calls number \<open>n\<close> and \<open>n + 1\<close>,
  which return 15/16. A second container of 1039 by 515 pixels gives bounds of 1024
  by 500.
\<close>

definition jitter_at :: "nat \<Rightarrow> nat \<Rightarrow> real" where
  "jitter_at n k = (if k = n \<or> k = n + 1 then 15 / 16 else 1 / 2)"

definition narrow_page :: "(nat \<Rightarrow> real) \<Rightarrow> platform" where
  "narrow_page rnd =
     \<lparr>Math_cos = cos, Math_sin = sin, Math_random = rnd, shuffle = (\<lambda>its. its),
      clientWidth = 100, clientHeight = 195\<rparr>"

definition wide_page :: "(nat \<Rightarrow> real) \<Rightarrow> platform" where
  "wide_page rnd =
     \<lparr>Math_cos = cos, Math_sin = sin, Math_random = rnd, shuffle = (\<lambda>its. its),
      clientWidth = 1039, clientHeight = 515\<rparr>"

definition two_items :: "item list" where
  "two_items = [philosopher_item [0x30AB, 0x30F3, 0x30C8], theme_item [0x5B58, 0x5728, 0x8AD6]]"

text \<open>The first container with the random sequence \<open>jitter_at 45\<close>; its shuffle is the identity.\<close>

definition example_page :: platform where
  "example_page = narrow_page (jitter_at 45)"

section \<open>Theorems\<close>

subsection \<open>Page size\<close>

lemma getWordcloudItemsPerPage_mono:
  "w \<le> w' \<Longrightarrow> getWordcloudItemsPerPage w \<le> getWordcloudItemsPerPage w'"
  by (simp add: getWordcloudItemsPerPage_def)

text \<open>
  C9. For every viewport width the page size is 10 below 480, 12 from 480 up to (not
  including) 768 and 14 from 768 on; hence it is one of 10, 12, 14, and it never
  decreases when the width grows.
\<close>

theorem C9_page_size_tiers:
  "getWordcloudItemsPerPage w \<in> {10, 12, 14} \<and>
   (w < 480 \<longrightarrow> getWordcloudItemsPerPage w = 10) \<and>
   (480 \<le> w \<and> w < 768 \<longrightarrow> getWordcloudItemsPerPage w = 12) \<and>
   (768 \<le> w \<longrightarrow> getWordcloudItemsPerPage w = 14) \<and>
   (\<forall>w'. w \<le> w' \<longrightarrow> getWordcloudItemsPerPage w \<le> getWordcloudItemsPerPage w')"
  using getWordcloudItemsPerPage_mono [of w]
  by (auto simp add: getWordcloudItemsPerPage_def)

theorem C9_page_size_tiers_witness:
  "getWordcloudItemsPerPage 479 = 10 \<and> getWordcloudItemsPerPage 480 = 12 \<and>
   getWordcloudItemsPerPage 767 = 12 \<and> getWordcloudItemsPerPage 768 = 14 \<and>
   getWordcloudItemsPerPage 479 \<le> getWordcloudItemsPerPage 768"
proof -
  have a: "getWordcloudItemsPerPage 479 = 10"
    using C9_page_size_tiers [of 479] by simp
  have b: "getWordcloudItemsPerPage 480 = 12"
    using C9_page_size_tiers [of 480] by simp
  have c: "getWordcloudItemsPerPage 767 = 12"
    using C9_page_size_tiers [of 767] by simp
  have d: "getWordcloudItemsPerPage 768 = 14"
    using C9_page_size_tiers [of 768] by simp
  have "(479::int) \<le> 768 \<longrightarrow> getWordcloudItemsPerPage 479 \<le> getWordcloudItemsPerPage 768"
    using C9_page_size_tiers [of 479] by blast
  then have e: "getWordcloudItemsPerPage 479 \<le> getWordcloudItemsPerPage 768"
    by simp
  from a b c d e show ?thesis by simp
qed

subsection \<open>Colours\<close>

lemma palette_lookup_nonempty:
  "colors \<noteq> [] \<Longrightarrow>
   palette_lookup colors (c # cs) = Some (colors ! (unat c mod length colors))"
  by (simp add: palette_lookup_def Let_def)

lemma palette_lookup_in_palette:
  "colors \<noteq> [] \<Longrightarrow> \<exists>col \<in> set colors. palette_lookup colors (c # cs) = Some col"
  by (simp add: palette_lookup_nonempty)

lemma palette_lookup_empty: "palette_lookup colors [] = None"
  by (simp add: palette_lookup_def)

text \<open>
  C10. For a non-empty name, getPhilosopherColor returns the entry of its 8-entry
  palette at index (first code unit mod 8), and getThemeColor the entry of its 6-entry
  palette at index (first code unit mod 6); two non-empty names whose first code units
  agree modulo the palette length get the same colour. For the empty string both
  return undefined, which is no entry of the palette.
\<close>

theorem C10_colors_from_first_code_unit:
  "length philosopher_colors = 8 \<and> length theme_colors = 6 \<and>
   getPhilosopherColor (c # cs) = Some (philosopher_colors ! (unat c mod 8)) \<and>
   (\<exists>col \<in> set philosopher_colors. getPhilosopherColor (c # cs) = Some col) \<and>
   getThemeColor (c # cs) = Some (theme_colors ! (unat c mod 6)) \<and>
   (\<exists>col \<in> set theme_colors. getThemeColor (c # cs) = Some col) \<and>
   (unat c mod 8 = unat d mod 8 \<longrightarrow>
      getPhilosopherColor (c # cs) = getPhilosopherColor (d # ds)) \<and>
   (unat c mod 6 = unat d mod 6 \<longrightarrow>
      getThemeColor (c # cs) = getThemeColor (d # ds)) \<and>
   getPhilosopherColor [] = None \<and> getThemeColor [] = None"
proof -
  have lp: "length philosopher_colors = 8" and lt: "length theme_colors = 6"
    by (simp_all add: philosopher_colors_def theme_colors_def)
  have np: "philosopher_colors \<noteq> []" and nt: "theme_colors \<noteq> []"
    using lp lt by auto
  have p: "getPhilosopherColor (e # es) = Some (philosopher_colors ! (unat e mod 8))"
    for e es
    using palette_lookup_nonempty [OF np, of e es] by (simp add: getPhilosopherColor_def lp)
  have t: "getThemeColor (e # es) = Some (theme_colors ! (unat e mod 6))" for e es
    using palette_lookup_nonempty [OF nt, of e es] by (simp add: getThemeColor_def lt)
  have pin: "\<exists>col \<in> set philosopher_colors. getPhilosopherColor (c # cs) = Some col"
    using palette_lookup_in_palette [OF np, of c cs] by (simp add: getPhilosopherColor_def)
  have tin: "\<exists>col \<in> set theme_colors. getThemeColor (c # cs) = Some col"
    using palette_lookup_in_palette [OF nt, of c cs] by (simp add: getThemeColor_def)
  have e: "getPhilosopherColor [] = None" "getThemeColor [] = None"
    by (simp_all add: getPhilosopherColor_def getThemeColor_def palette_lookup_empty)
  show ?thesis
    using lp lt p t pin tin e by simp
qed

text \<open>
  The names of the witness are the code units of two names of the fallback
  configuration: the first three are KA, N, TO in katakana (a philosopher), the second
  starts with the code unit 0x5B58 (a theme).
\<close>

theorem C10_colors_from_first_code_unit_witness:
  "getPhilosopherColor [0x30AB, 0x30F3, 0x30C8] = Some ''#9fb8d4'' \<and>
   getThemeColor [0x5B58, 0x5728, 0x8AD6] = Some ''#a8b8d4'' \<and>
   getPhilosopherColor [0x30AB, 0x30F3, 0x30C8] = getPhilosopherColor [0x30B3] \<and>
   getThemeColor [0x5B58, 0x5728, 0x8AD6] = getThemeColor [0x5B5E]"
proof -
  have a: "getPhilosopherColor [0x30AB, 0x30F3, 0x30C8] = Some ''#9fb8d4''"
    using C10_colors_from_first_code_unit [of "0x30AB" "[0x30F3, 0x30C8]"]
    by (simp add: philosopher_colors_def)
  have b: "getThemeColor [0x5B58, 0x5728, 0x8AD6] = Some ''#a8b8d4''"
    using C10_colors_from_first_code_unit [of "0x5B58" "[0x5728, 0x8AD6]"]
    by (simp add: theme_colors_def)
  have "unat (0x30AB :: 16 word) mod 8 = unat (0x30B3 :: 16 word) mod 8 \<longrightarrow>
        getPhilosopherColor [0x30AB, 0x30F3, 0x30C8] = getPhilosopherColor [0x30B3]"
    using C10_colors_from_first_code_unit [of "0x30AB" "[0x30F3, 0x30C8]" "0x30B3" "[]"]
    by blast
  then have c: "getPhilosopherColor [0x30AB, 0x30F3, 0x30C8] = getPhilosopherColor [0x30B3]"
    by simp
  have "unat (0x5B58 :: 16 word) mod 6 = unat (0x5B5E :: 16 word) mod 6 \<longrightarrow>
        getThemeColor [0x5B58, 0x5728, 0x8AD6] = getThemeColor [0x5B5E]"
    using C10_colors_from_first_code_unit [of "0x5B58" "[0x5728, 0x8AD6]" "0x5B5E" "[]"]
    by blast
  then have d: "getThemeColor [0x5B58, 0x5728, 0x8AD6] = getThemeColor [0x5B5E]"
    by simp
  from a b c d show ?thesis by simp
qed

subsection \<open>Padding of the item list\<close>

lemma ensure_minimum_length:
  "length (ensure_minimum xs) =
     (if length xs < 5 then length xs + min (5 - length xs) (length xs) else length xs)"
  by (simp add: ensure_minimum_def Let_def min_def)

lemma ensure_minimum_prefix: "take (length xs) (ensure_minimum xs) = xs"
  by (simp add: ensure_minimum_def Let_def)

lemma ensure_minimum_suffix:
  "drop (length xs) (ensure_minimum xs) = (if length xs < 5 then take (5 - length xs) xs else [])"
  by (simp add: ensure_minimum_def Let_def)

lemma ensure_minimum_three_or_four:
  "3 \<le> length xs \<Longrightarrow> length (ensure_minimum xs) = max (length xs) 5"
  by (simp add: ensure_minimum_length)

text \<open>
  Lists of length 1 and 2 are padded to 2 and 4 entries only: a configuration with one
  philosopher and no theme gives a list of length 1, the padding appends
  \<open>slice(0, 4)\<close> of it, which has one entry, and the padded list has 2 entries,
  where taking entries cyclically from the front until five are present gives 5.
\<close>

lemma padding_one_item_gives_two:
  "initial_allItems \<lparr>philosophers = [[0x30AB, 0x30F3, 0x30C8]], themes = []\<rparr>
     = [philosopher_item [0x30AB, 0x30F3, 0x30C8], philosopher_item [0x30AB, 0x30F3, 0x30C8]] \<and>
   length (initial_allItems \<lparr>philosophers = [[0x30AB, 0x30F3, 0x30C8]], themes = []\<rparr>) = 2 \<and>
   length (mixed_items \<lparr>philosophers = [[0x30AB, 0x30F3, 0x30C8]], themes = []\<rparr>) = 1 \<and>
   length (cyclic_padding (mixed_items \<lparr>philosophers = [[0x30AB, 0x30F3, 0x30C8]], themes = []\<rparr>)) = 5"
  by (simp add: initial_allItems_def mixed_items_def ensure_minimum_def cyclic_padding_def)

lemma cyclic_padding_three_or_four:
  assumes "3 \<le> length xs" and "length xs < 5"
  shows "cyclic_padding xs = xs @ take (5 - length xs) xs"
proof -
  have m: "5 - length xs \<le> length xs" using assms by linarith
  have "map (\<lambda>k. xs ! (k mod length xs)) [0 ..< 5 - length xs] = take (5 - length xs) xs"
  proof (rule nth_equalityI)
    show "length (map (\<lambda>k. xs ! (k mod length xs)) [0 ..< 5 - length xs])
            = length (take (5 - length xs) xs)"
      using m by simp
  next
    fix i assume "i < length (map (\<lambda>k. xs ! (k mod length xs)) [0 ..< 5 - length xs])"
    then have i: "i < 5 - length xs" by simp
    then have "i < length xs" using m by linarith
    then show "map (\<lambda>k. xs ! (k mod length xs)) [0 ..< 5 - length xs] ! i
                 = take (5 - length xs) xs ! i"
      using i by simp
  qed
  then show ?thesis by (simp add: cyclic_padding_def)
qed

text \<open>
  C1 as stated fails: the empty configuration gives a source list of length 0, and
  the padded list is empty as well, where the claim promises max 0 5 = 5 entries.
\<close>

theorem C1_empty_list_counterexample:
  "\<not> (length (initial_allItems empty_config) = max (length (mixed_items empty_config)) 5)"
  by (simp add: initial_allItems_def mixed_items_def empty_config_def ensure_minimum_def)

text \<open>
  C1, amended. The padded list always starts with the source list, in order. For a
  source list of length 3 or 4 it has exactly 5 = max n 5 entries, and the entries
  behind the source list are its first 5 - n entries, which is what taking entries
  cyclically from the front gives. An empty source list stays empty, and a list of 5
  or more entries is not changed.
\<close>

theorem C1_padding:
  "initial_allItems cfg = ensure_minimum (mixed_items cfg) \<and>
   take (length xs) (ensure_minimum xs) = xs \<and>
   (3 \<le> length xs \<and> length xs < 5 \<longrightarrow>
      length (ensure_minimum xs) = max (length xs) 5 \<and>
      drop (length xs) (ensure_minimum xs) = take (5 - length xs) xs \<and>
      ensure_minimum xs = cyclic_padding xs) \<and>
   (xs = [] \<longrightarrow> ensure_minimum xs = []) \<and>
   (5 \<le> length xs \<longrightarrow> ensure_minimum xs = xs)"
proof (intro conjI impI)
  show "initial_allItems cfg = ensure_minimum (mixed_items cfg)"
    by (simp add: initial_allItems_def)
  show "take (length xs) (ensure_minimum xs) = xs"
    by (rule ensure_minimum_prefix)
  show "ensure_minimum xs = []" if "xs = []"
    using that by (simp add: ensure_minimum_def)
  show "ensure_minimum xs = xs" if "5 \<le> length xs"
    using that by (simp add: ensure_minimum_def)
next
  assume a: "3 \<le> length xs \<and> length xs < 5"
  then show "length (ensure_minimum xs) = max (length xs) 5"
    by (simp add: ensure_minimum_three_or_four)
  show "drop (length xs) (ensure_minimum xs) = take (5 - length xs) xs"
    using a by (simp add: ensure_minimum_suffix)
  show "ensure_minimum xs = cyclic_padding xs"
    using a by (simp add: cyclic_padding_three_or_four ensure_minimum_def Let_def)
qed

theorem C1_padding_witness:
  "ensure_minimum [1, 2, 3 :: nat] = [1, 2, 3, 1, 2] \<and>
   length (ensure_minimum [1, 2, 3 :: nat]) = 5 \<and>
   cyclic_padding [1, 2, 3 :: nat] = [1, 2, 3, 1, 2] \<and>
   ensure_minimum ([] :: nat list) = [] \<and>
   ensure_minimum [1, 2, 3, 4, 5, 6 :: nat] = [1, 2, 3, 4, 5, 6]"
proof -
  have h: "3 \<le> length [1, 2, 3 :: nat] \<and> length [1, 2, 3 :: nat] < 5" by simp
  have t: "take (length [1, 2, 3 :: nat]) (ensure_minimum [1, 2, 3 :: nat]) = [1, 2, 3]"
    and d: "drop (length [1, 2, 3 :: nat]) (ensure_minimum [1, 2, 3 :: nat])
              = take (5 - length [1, 2, 3 :: nat]) [1, 2, 3]"
    and l: "length (ensure_minimum [1, 2, 3 :: nat]) = max (length [1, 2, 3 :: nat]) 5"
    and c: "ensure_minimum [1, 2, 3 :: nat] = cyclic_padding [1, 2, 3]"
    using C1_padding [of empty_config "[1, 2, 3 :: nat]"] h by blast+
  have "ensure_minimum [1, 2, 3 :: nat]
          = take (length [1, 2, 3 :: nat]) (ensure_minimum [1, 2, 3 :: nat])
            @ drop (length [1, 2, 3 :: nat]) (ensure_minimum [1, 2, 3 :: nat])"
    by (simp only: append_take_drop_id)
  then have e: "ensure_minimum [1, 2, 3 :: nat] = [1, 2, 3, 1, 2]"
    by (simp only: t d) simp
  have n: "ensure_minimum ([] :: nat list) = []"
    using C1_padding [of empty_config "[] :: nat list"] by blast
  have "5 \<le> length [1, 2, 3, 4, 5, 6 :: nat]" by simp
  then have s: "ensure_minimum [1, 2, 3, 4, 5, 6 :: nat] = [1, 2, 3, 4, 5, 6]"
    using C1_padding [of empty_config "[1, 2, 3, 4, 5, 6 :: nat]"] by blast
  have l': "length (ensure_minimum [1, 2, 3 :: nat]) = 5"
    using l by simp
  have c': "cyclic_padding [1, 2, 3 :: nat] = [1, 2, 3, 1, 2]"
    using c [symmetric] e by (simp only:)
  show ?thesis
    by (intro conjI) (rule e l' c' n s)+
qed

subsection \<open>Pagination\<close>

lemma totalPages_div:
  "0 < ps \<Longrightarrow> totalPages ps st = (length (allItems st) + ps - 1) div ps"
proof -
  assume ps: "0 < ps"
  define n where "n = length (allItems st)"
  have "\<lceil>real n / real ps\<rceil> = int ((n + ps - 1) div ps)"
  proof (rule ceiling_unique)
    have "n \<le> ((n + ps - 1) div ps) * ps"
    proof -
      have "(n + ps - 1) mod ps \<le> ps - 1" using ps
        by (metis Suc_pred' less_Suc_eq_le mod_less_divisor)
      moreover have "((n + ps - 1) div ps) * ps + (n + ps - 1) mod ps = n + ps - 1"
        by simp
      ultimately show ?thesis using ps by linarith
    qed
    then have "real n \<le> real (((n + ps - 1) div ps) * ps)"
      using of_nat_le_iff by blast
    then show "real n / real ps \<le> of_int (int ((n + ps - 1) div ps))"
      using ps by (simp add: divide_le_eq)
    have "((n + ps - 1) div ps) * ps \<le> n + ps - 1"
      by simp
    then have "((n + ps - 1) div ps) * ps < n + ps"
      using ps by linarith
    then have "real (((n + ps - 1) div ps) * ps) < real (n + ps)"
      using of_nat_less_iff by blast
    then show "of_int (int ((n + ps - 1) div ps)) - 1 < real n / real ps"
      using ps by (simp add: less_divide_eq algebra_simps)
  qed
  then show ?thesis
    by (simp add: totalPages_def n_def)
qed

lemma totalPages_pos: "0 < ps \<Longrightarrow> allItems st \<noteq> [] \<Longrightarrow> 0 < totalPages ps st"
proof -
  assume ps: "0 < ps" and ne: "allItems st \<noteq> []"
  from ne have "0 < length (allItems st)" by simp
  then have "ps \<le> length (allItems st) + ps - 1" by linarith
  then show ?thesis using ps by (simp add: totalPages_div div_greater_zero_iff)
qed

lemma totalPages_empty: "allItems st = [] \<Longrightarrow> totalPages ps st = 0"
  by (simp add: totalPages_def)

lemma nextPage_allItems [simp]: "allItems (nextPage pf ps st) = allItems st"
  by (simp add: nextPage_def displayWordcloudPage_def Let_def select_page_def)

lemma totalPages_nextPage [simp]: "totalPages ps (nextPage pf ps st) = totalPages ps st"
  by (simp add: totalPages_def)

lemma nextPage_index:
  "currentPageIndex (nextPage pf ps st) = js_mod (js_succ (currentPageIndex st)) (totalPages ps st)"
  by (simp add: nextPage_def displayWordcloudPage_def Let_def select_page_def)

lemma nextPage_items:
  "currentPageItems (nextPage pf ps st) =
     shuffle pf (slice_page ps (currentPageIndex (nextPage pf ps st)) (allItems st))"
  by (simp add: nextPage_def displayWordcloudPage_def Let_def select_page_def)

lemma nextPage_funpow_allItems [simp]: "allItems ((nextPage pf ps ^^ k) st) = allItems st"
  by (induction k) simp_all

lemma nextPage_funpow_index:
  "0 < totalPages ps st \<Longrightarrow> currentPageIndex st = Num i \<Longrightarrow>
   currentPageIndex ((nextPage pf ps ^^ k) st) =
     (if k = 0 then Num i else Num ((i + k) mod totalPages ps st))"
proof (induction k)
  case 0
  then show ?case by simp
next
  case (Suc k)
  have tp: "totalPages ps ((nextPage pf ps ^^ k) st) = totalPages ps st"
    by (simp add: totalPages_def)
  show ?case
  proof (cases "k = 0")
    case True
    then show ?thesis using Suc.prems by (simp add: nextPage_index)
  next
    case False
    then have "currentPageIndex ((nextPage pf ps ^^ k) st) = Num ((i + k) mod totalPages ps st)"
      using Suc by simp
    then show ?thesis
      using Suc.prems(1) by (simp add: nextPage_index tp mod_Suc_eq)
  qed
qed

lemma fifteen_items_page1_pages: "totalPages 10 fifteen_items_page1 = 2"
  by (simp add: totalPages_div fifteen_items_page1_def)

lemma example_page_shuffle: "shuffle example_page its = its"
  by (simp add: example_page_def narrow_page_def)

lemma empty_config_state:
  "renderWordcloud_state pf ps empty_config =
     \<lparr>allItems = [], currentPageItems = shuffle pf [], currentPageIndex = Num 0\<rparr>"
  by (simp add: renderWordcloud_state_def displayWordcloudPage_def Let_def empty_config_def
      initial_allItems_def mixed_items_def ensure_minimum_def select_page_def)

text \<open>
  C5 as stated fails: with the empty configuration renderWordcloud stores an empty item
  list and index 0. The page count the handler computes is then 0, not 1, and
  \<open>(0 + 1) % 0\<close> is \<open>NaN\<close>, where "1 modulo a page count of 1" would be 0.
\<close>

theorem C5_empty_list_counterexample:
  "\<not> (currentPageIndex (nextPage example_page 10 (renderWordcloud_state example_page 10 empty_config))
        = Num ((0 + 1) mod pageCount_spec 10 (renderWordcloud_state example_page 10 empty_config)))"
  by (simp add: empty_config_state nextPage_index totalPages_empty)

text \<open>
  C5, amended. With a positive page size: when the item list is not empty and the
  index is a number i, nextPage sets the index to (i + 1) modulo the page count
  ceil(length / page size), which is positive, and the page to the shuffled slice of
  the list at that index; when the item list is empty the computed page count is 0,
  the index becomes NaN and the page is the shuffle of the empty list, which is
  empty. The handler has no failing step.
\<close>

theorem C5_nextPage_advances:
  assumes "0 < ps"
  shows "(allItems st \<noteq> [] \<and> currentPageIndex st = Num i \<longrightarrow>
            0 < totalPages ps st \<and>
            totalPages ps st = (length (allItems st) + ps - 1) div ps \<and>
            currentPageIndex (nextPage pf ps st) = Num ((i + 1) mod totalPages ps st) \<and>
            currentPageItems (nextPage pf ps st) =
              shuffle pf (take ps (drop (((i + 1) mod totalPages ps st) * ps) (allItems st)))) \<and>
         (allItems st = [] \<longrightarrow>
            totalPages ps st = 0 \<and>
            currentPageIndex (nextPage pf ps st) = NaN \<and>
            currentPageItems (nextPage pf ps st) = shuffle pf [] \<and>
            (shuffle pf [] = [] \<longrightarrow> currentPageItems (nextPage pf ps st) = []))"
proof (intro conjI impI)
  assume a: "allItems st \<noteq> [] \<and> currentPageIndex st = Num i"
  then show pos: "0 < totalPages ps st"
    using assms by (simp add: totalPages_pos)
  show "totalPages ps st = (length (allItems st) + ps - 1) div ps"
    using assms by (rule totalPages_div)
  show idx: "currentPageIndex (nextPage pf ps st) = Num ((i + 1) mod totalPages ps st)"
    using a pos by (simp add: nextPage_index)
  show "currentPageItems (nextPage pf ps st) =
          shuffle pf (take ps (drop (((i + 1) mod totalPages ps st) * ps) (allItems st)))"
    by (simp only: nextPage_items idx slice_page.simps)
next
  assume e: "allItems st = []"
  then show z: "totalPages ps st = 0"
    by (rule totalPages_empty)
  show idx: "currentPageIndex (nextPage pf ps st) = NaN"
    by (cases "currentPageIndex st") (simp_all add: nextPage_index z)
  show items: "currentPageItems (nextPage pf ps st) = shuffle pf []"
    by (simp only: nextPage_items idx slice_page.simps)
  assume "shuffle pf [] = []"
  then show "currentPageItems (nextPage pf ps st) = []"
    using items by simp
qed

theorem C5_nextPage_advances_witness:
  "currentPageIndex (nextPage example_page 10 fifteen_items_page1) = Num 0 \<and>
   currentPageItems (nextPage example_page 10 fifteen_items_page1)
     = replicate 10 (philosopher_item [0x30AB, 0x30F3, 0x30C8]) \<and>
   currentPageIndex
     (nextPage example_page 10 (renderWordcloud_state example_page 10 empty_config)) = NaN \<and>
   currentPageItems
     (nextPage example_page 10 (renderWordcloud_state example_page 10 empty_config)) = []"
proof -
  let ?e = "renderWordcloud_state example_page 10 empty_config"
  have ps: "(0::nat) < 10" by simp
  have ne: "allItems fifteen_items_page1 \<noteq> [] \<and> currentPageIndex fifteen_items_page1 = Num 1"
    by (simp add: fifteen_items_page1_def)
  have em: "allItems ?e = []"
    by (simp add: empty_config_state)
  have sh: "shuffle example_page [] = []"
    by (rule example_page_shuffle)
  from C5_nextPage_advances [OF ps, of fifteen_items_page1 1 example_page] ne
  have "currentPageIndex (nextPage example_page 10 fifteen_items_page1)
          = Num ((1 + 1) mod totalPages 10 fifteen_items_page1)"
    and "currentPageItems (nextPage example_page 10 fifteen_items_page1) =
          shuffle example_page
            (take 10 (drop (((1 + 1) mod totalPages 10 fifteen_items_page1) * 10)
               (allItems fifteen_items_page1)))"
    by blast+
  then have a: "currentPageIndex (nextPage example_page 10 fifteen_items_page1) = Num 0"
    and b: "currentPageItems (nextPage example_page 10 fifteen_items_page1)
              = replicate 10 (philosopher_item [0x30AB, 0x30F3, 0x30C8])"
    by (simp_all add: fifteen_items_page1_pages example_page_shuffle)
      (simp_all add: fifteen_items_page1_def)
  from C5_nextPage_advances [OF ps, of ?e _ example_page] em sh
  have c: "currentPageIndex (nextPage example_page 10 ?e) = NaN"
    and d: "currentPageItems (nextPage example_page 10 ?e) = []"
    by blast+
  show ?thesis
    by (intro conjI) (rule a b c d)+
qed

text \<open>
  C8 as stated fails: from the second of two pages (index 1), two applications of
  nextPage lead back to index 1, not to index 0.
\<close>

theorem C8_returns_to_start_counterexample:
  "\<not> (currentPageIndex
         ((nextPage example_page 10 ^^ pageCount_spec 10 fifteen_items_page1) fifteen_items_page1)
        = Num 0)"
proof -
  have pc: "pageCount_spec 10 fifteen_items_page1 = 2"
    by (simp add: pageCount_spec_def fifteen_items_page1_pages) (simp add: fifteen_items_page1_def)
  have "currentPageIndex ((nextPage example_page 10 ^^ 2) fifteen_items_page1) = Num 1"
    using nextPage_funpow_index [of 10 fifteen_items_page1 1 2 example_page]
    by (simp add: fifteen_items_page1_pages) (simp add: fifteen_items_page1_def)
  then show ?thesis by (simp add: pc)
qed

text \<open>
  C8, amended. With a positive page size, a non-empty item list and an index i below
  the page count, applying nextPage page-count times leads back to the index i the
  state started from; so it leads to index 0 exactly from the states with index 0,
  such as the state renderWordcloud stores.
\<close>

theorem C8_nextPage_cycle:
  assumes "0 < ps" and "allItems st \<noteq> []"
    and "currentPageIndex st = Num i" and "i < totalPages ps st"
  shows "currentPageIndex ((nextPage pf ps ^^ totalPages ps st) st) = Num i \<and>
         (currentPageIndex ((nextPage pf ps ^^ totalPages ps st) st) = Num 0 \<longleftrightarrow> i = 0)"
proof -
  have pos: "0 < totalPages ps st"
    using assms(1,2) by (rule totalPages_pos)
  have "currentPageIndex ((nextPage pf ps ^^ totalPages ps st) st)
          = Num ((i + totalPages ps st) mod totalPages ps st)"
    using nextPage_funpow_index [OF pos assms(3), of "totalPages ps st" pf] pos by simp
  then have "currentPageIndex ((nextPage pf ps ^^ totalPages ps st) st) = Num i"
    using assms(4) by simp
  then show ?thesis by simp
qed

theorem C8_nextPage_cycle_witness:
  "currentPageIndex ((nextPage example_page 10 ^^ 2) fifteen_items_page1) = Num 1 \<and>
   currentPageIndex
     ((nextPage example_page 10 ^^ 2) (fifteen_items_page1\<lparr>currentPageIndex := Num 0\<rparr>)) = Num 0"
proof -
  have ps: "(0::nat) < 10" by simp
  have ne: "allItems fifteen_items_page1 \<noteq> []"
    and ne0: "allItems (fifteen_items_page1\<lparr>currentPageIndex := Num 0\<rparr>) \<noteq> []"
    by (simp_all add: fifteen_items_page1_def)
  have i1: "currentPageIndex fifteen_items_page1 = Num 1"
    and i0: "currentPageIndex (fifteen_items_page1\<lparr>currentPageIndex := Num 0\<rparr>) = Num 0"
    by (simp_all add: fifteen_items_page1_def)
  have tp0: "totalPages 10 (fifteen_items_page1\<lparr>currentPageIndex := Num 0\<rparr>) = 2"
    using fifteen_items_page1_pages by (simp add: totalPages_def)
  have lt1: "1 < totalPages 10 fifteen_items_page1"
    by (simp add: fifteen_items_page1_pages)
  have lt0: "0 < totalPages 10 (fifteen_items_page1\<lparr>currentPageIndex := Num 0\<rparr>)"
    by (simp add: tp0)
  have a: "currentPageIndex ((nextPage example_page 10 ^^ 2) fifteen_items_page1) = Num 1"
    using C8_nextPage_cycle [OF ps ne i1 lt1, of example_page]
    by (simp add: fifteen_items_page1_pages)
  have b: "currentPageIndex
     ((nextPage example_page 10 ^^ 2) (fifteen_items_page1\<lparr>currentPageIndex := Num 0\<rparr>)) = Num 0"
    using C8_nextPage_cycle [OF ps ne0 i0 lt0, of example_page] by (simp add: tp0)
  from a b show ?thesis by simp
qed

subsection \<open>Video identifier\<close>

lemma js_eval: "js [] = []" "js (c # cs) = of_nat (of_char c) # js cs"
  by (simp_all add: js_def)

lemma starts_with_iff: "starts_with xs ns \<longleftrightarrow> (\<exists>ss. xs = ns @ ss)"
  by (induction xs ns rule: starts_with.induct) auto

lemma js_includes_iff: "js_includes xs ns \<longleftrightarrow> (\<exists>ps ss. xs = ps @ ns @ ss)"
proof (induction xs)
  case Nil
  then show ?case by (simp add: starts_with_iff)
next
  case (Cons x xs)
  show ?case
  proof
    assume "js_includes (x # xs) ns"
    then consider "starts_with (x # xs) ns" | "js_includes xs ns" by auto
    then show "\<exists>ps ss. x # xs = ps @ ns @ ss"
    proof cases
      case 1
      then obtain ss where "x # xs = ns @ ss" by (auto simp: starts_with_iff)
      then have "x # xs = [] @ ns @ ss" by simp
      then show ?thesis by blast
    next
      case 2
      then obtain ps ss where "xs = ps @ ns @ ss" using Cons.IH by blast
      then have "x # xs = (x # ps) @ ns @ ss" by simp
      then show ?thesis by blast
    qed
  next
    assume "\<exists>ps ss. x # xs = ps @ ns @ ss"
    then obtain ps ss where e: "x # xs = ps @ ns @ ss" by blast
    show "js_includes (x # xs) ns"
    proof (cases ps)
      case Nil
      then have "starts_with (x # xs) ns" using e by (auto simp: starts_with_iff)
      then show ?thesis by simp
    next
      case (Cons p ps')
      then have "xs = ps' @ ns @ ss" using e by simp
      then have "js_includes xs ns" using Cons.IH by blast
      then show ?thesis by simp
    qed
  qed
qed

lemma first_path_segment_single:
  "0x2F \<notin> set (drop 1 p) \<Longrightarrow> first_path_segment p = drop 1 p"
  by (auto simp add: first_path_segment_def takeWhile_eq_all_conv)

lemma URL_simple_two_segments:
  "URL_simple (js ''https://youtu.be/xyz789/extra'') =
     Some \<lparr>hostname = js ''youtu.be'', pathname = js ''/xyz789/extra'', searchParams = []\<rparr>"
  by (simp add: js_eval URL_simple_def parse_after_scheme_def parse_query_def)

lemma URL_simple_watch:
  "URL_simple (js ''https://www.youtube.com/watch?v=abc123'') =
     Some \<lparr>hostname = js ''www.youtube.com'', pathname = js ''/watch'',
           searchParams = [(js ''v'', js ''abc123'')]\<rparr>"
  by (simp add: js_eval URL_simple_def parse_after_scheme_def parse_query_def parse_pair_def)

lemma URL_simple_short:
  "URL_simple (js ''https://youtu.be/xyz789'') =
     Some \<lparr>hostname = js ''youtu.be'', pathname = js ''/xyz789'', searchParams = []\<rparr>"
  by (simp add: js_eval URL_simple_def parse_after_scheme_def parse_query_def)

lemma URL_simple_other:
  "URL_simple (js ''https://example.com/x'') =
     Some \<lparr>hostname = js ''example.com'', pathname = js ''/x'', searchParams = []\<rparr>"
  by (simp add: js_eval URL_simple_def parse_after_scheme_def parse_query_def)

lemma URL_simple_rejects: "URL_simple (js ''not a url'') = None"
  by (simp add: js_eval URL_simple_def)

text \<open>
  C6 as stated fails: for \<open>https://youtu.be/xyz789/extra\<close> the host contains
  \<open>youtu.be\<close> and the first path segment is \<open>xyz789\<close>, but the function returns the
  whole path behind the leading slash, \<open>xyz789/extra\<close>.
\<close>

theorem C6_first_segment_counterexample:
  "\<not> (extractYouTubeVideoId URL_simple (js ''https://youtu.be/xyz789/extra'')
        = videoId_spec URL_simple (js ''https://youtu.be/xyz789/extra''))"
  by (simp add: extractYouTubeVideoId_def videoId_spec_def URL_simple_two_segments
      first_path_segment_def)
    (simp add: js_eval)

text \<open>
  C6, amended. Whatever the URL parser is: on an unparseable input the result is null;
  when the host contains \<open>youtube.com\<close> it is the value of the \<open>v\<close> parameter, and
  null when that is absent or the empty string; otherwise, when the host contains
  \<open>youtu.be\<close>, it is the whole path behind its first code unit, which is the first
  path segment when the path has a single segment; for every other host it is null.
  The three example addresses, parsed into host, path and query as the platform does,
  give \<open>abc123\<close>, \<open>xyz789\<close> and null.
\<close>

theorem C6_video_id:
  "(URL u = None \<longrightarrow> extractYouTubeVideoId URL u = None) \<and>
   (URL u = Some ob \<and> js_includes (hostname ob) (js ''youtube.com'') \<longrightarrow>
      extractYouTubeVideoId URL u =
        (if searchParams_get (searchParams ob) (js ''v'') = Some [] then None
         else searchParams_get (searchParams ob) (js ''v''))) \<and>
   (URL u = Some ob \<and> \<not> js_includes (hostname ob) (js ''youtube.com'') \<and>
    js_includes (hostname ob) (js ''youtu.be'') \<longrightarrow>
      extractYouTubeVideoId URL u = Some (drop 1 (pathname ob)) \<and>
      (0x2F \<notin> set (drop 1 (pathname ob)) \<longrightarrow>
         extractYouTubeVideoId URL u = Some (first_path_segment (pathname ob)))) \<and>
   (URL u = Some ob \<and> \<not> js_includes (hostname ob) (js ''youtube.com'') \<and>
    \<not> js_includes (hostname ob) (js ''youtu.be'') \<longrightarrow>
      extractYouTubeVideoId URL u = None) \<and>
   (URL u = Some \<lparr>hostname = js ''www.youtube.com'', pathname = js ''/watch'',
                  searchParams = [(js ''v'', js ''abc123'')]\<rparr> \<longrightarrow>
      extractYouTubeVideoId URL u = Some (js ''abc123'')) \<and>
   (URL u = Some \<lparr>hostname = js ''youtu.be'', pathname = js ''/xyz789'',
                  searchParams = []\<rparr> \<longrightarrow>
      extractYouTubeVideoId URL u = Some (js ''xyz789'')) \<and>
   (URL u = Some \<lparr>hostname = js ''example.com'', pathname = js ''/x'',
                  searchParams = []\<rparr> \<longrightarrow>
      extractYouTubeVideoId URL u = None)"
proof (intro conjI impI)
  assume "URL u = None"
  then show "extractYouTubeVideoId URL u = None"
    by (simp add: extractYouTubeVideoId_def)
next
  assume "URL u = Some ob \<and> js_includes (hostname ob) (js ''youtube.com'')"
  then show "extractYouTubeVideoId URL u =
        (if searchParams_get (searchParams ob) (js ''v'') = Some [] then None
         else searchParams_get (searchParams ob) (js ''v''))"
    by (cases "searchParams_get (searchParams ob) (js ''v'')")
      (simp_all add: extractYouTubeVideoId_def)
next
  assume a: "URL u = Some ob \<and> \<not> js_includes (hostname ob) (js ''youtube.com'') \<and>
    js_includes (hostname ob) (js ''youtu.be'')"
  then show r: "extractYouTubeVideoId URL u = Some (drop 1 (pathname ob))"
    by (simp add: extractYouTubeVideoId_def)
  assume "0x2F \<notin> set (drop 1 (pathname ob))"
  then show "extractYouTubeVideoId URL u = Some (first_path_segment (pathname ob))"
    using r by (simp add: first_path_segment_single)
next
  assume "URL u = Some ob \<and> \<not> js_includes (hostname ob) (js ''youtube.com'') \<and>
    \<not> js_includes (hostname ob) (js ''youtu.be'')"
  then show "extractYouTubeVideoId URL u = None"
    by (simp add: extractYouTubeVideoId_def)
next
  assume "URL u = Some \<lparr>hostname = js ''www.youtube.com'', pathname = js ''/watch'',
                  searchParams = [(js ''v'', js ''abc123'')]\<rparr>"
  then show "extractYouTubeVideoId URL u = Some (js ''abc123'')"
    by (simp add: extractYouTubeVideoId_def searchParams_get_def) (simp add: js_eval)
next
  assume "URL u = Some \<lparr>hostname = js ''youtu.be'', pathname = js ''/xyz789'',
                  searchParams = []\<rparr>"
  then show "extractYouTubeVideoId URL u = Some (js ''xyz789'')"
    by (simp add: extractYouTubeVideoId_def) (simp add: js_eval)
next
  assume "URL u = Some \<lparr>hostname = js ''example.com'', pathname = js ''/x'',
                  searchParams = []\<rparr>"
  then show "extractYouTubeVideoId URL u = None"
    by (simp add: extractYouTubeVideoId_def) (simp add: js_eval)
qed

theorem C6_video_id_witness:
  "extractYouTubeVideoId URL_simple (js ''https://www.youtube.com/watch?v=abc123'')
     = Some (js ''abc123'') \<and>
   extractYouTubeVideoId URL_simple (js ''https://youtu.be/xyz789'') = Some (js ''xyz789'') \<and>
   extractYouTubeVideoId URL_simple (js ''https://example.com/x'') = None \<and>
   extractYouTubeVideoId URL_simple (js ''not a url'') = None \<and>
   extractYouTubeVideoId URL_simple (js ''https://youtu.be/xyz789/extra'')
     = Some (js ''xyz789/extra'')"
proof -
  have a: "extractYouTubeVideoId URL_simple (js ''https://www.youtube.com/watch?v=abc123'')
     = Some (js ''abc123'')"
    using C6_video_id [of URL_simple "js ''https://www.youtube.com/watch?v=abc123''"]
      URL_simple_watch by blast
  have b: "extractYouTubeVideoId URL_simple (js ''https://youtu.be/xyz789'') = Some (js ''xyz789'')"
    using C6_video_id [of URL_simple "js ''https://youtu.be/xyz789''"]
      URL_simple_short by blast
  have c: "extractYouTubeVideoId URL_simple (js ''https://example.com/x'') = None"
    using C6_video_id [of URL_simple "js ''https://example.com/x''"]
      URL_simple_other by blast
  have d: "extractYouTubeVideoId URL_simple (js ''not a url'') = None"
    using C6_video_id [of URL_simple "js ''not a url''"]
      URL_simple_rejects by blast
  have h: "\<not> js_includes (js ''youtu.be'') (js ''youtube.com'')"
    "js_includes (js ''youtu.be'') (js ''youtu.be'')"
    by (simp_all add: js_eval)
  have "extractYouTubeVideoId URL_simple (js ''https://youtu.be/xyz789/extra'')
     = Some (drop 1 (js ''/xyz789/extra''))"
    using C6_video_id [of URL_simple "js ''https://youtu.be/xyz789/extra''"
        "\<lparr>hostname = js ''youtu.be'', pathname = js ''/xyz789/extra'', searchParams = []\<rparr>"]
      URL_simple_two_segments h by simp
  then have e: "extractYouTubeVideoId URL_simple (js ''https://youtu.be/xyz789/extra'')
     = Some (js ''xyz789/extra'')"
    by (simp add: js_eval)
  from a b c d e show ?thesis by simp
qed

subsection \<open>Failure of the discovery search\<close>

lemma discover_try_failed:
  "request_failed (fetch pl) \<Longrightarrow> discover_try fetch pl app = Inl ()"
  by (cases "fetch pl") (simp_all add: discover_try_def)

lemma discover_failed:
  assumes "request_failed
             (fetch \<lparr>payload_philosophers = ps, payload_themes = ts,
                     search_query = sub, top_k = 5\<rparr>)"
  shows "discover fetch ps ts sub (app, pg) =
           (None, app, showLoading False (raise_alert SearchFailed (showLoading True pg)))"
  using assms
    discover_try_failed [of fetch "\<lparr>payload_philosophers = ps, payload_themes = ts,
                     search_query = sub, top_k = 5\<rparr>" app]
  by (simp add: discover_def Let_def)

text \<open>
  C7. When a main item is selected and the request the handler issues fails (network
  error, or a response that is not ok, whatever its body), discover returns null, and
  after the handler the application state is the one before (so selectedMain and
  selectedSub are not changed), the displayed step is the one before (step 2 stays
  step 2), no card is written, one alert is raised, and the loading overlay, where
  the page has one, is hidden.
\<close>

theorem C7_failed_search_keeps_state:
  assumes "selectedMain app = Some main" and "main \<noteq> []"
    and "ps = (if selectedMainType app = Some Philosopher then [main] else [])"
    and "ts = (if selectedMainType app = Some Theme then [main] else [])"
    and "sub = (case selectedSub app of None \<Rightarrow> [] | Some s \<Rightarrow> s)"
    and "request_failed
           (fetch \<lparr>payload_philosophers = ps, payload_themes = ts,
                   search_query = sub, top_k = 5\<rparr>)"
  shows "fst (discover fetch ps ts sub (app, pg)) = None \<and>
         fst (search_click fetch (app, pg)) = app \<and>
         selectedMain (fst (search_click fetch (app, pg))) = selectedMain app \<and>
         selectedSub (fst (search_click fetch (app, pg))) = selectedSub app \<and>
         step (snd (search_click fetch (app, pg))) = step pg \<and>
         cards (snd (search_click fetch (app, pg))) = cards pg \<and>
         alerts (snd (search_click fetch (app, pg))) = alerts pg @ [SearchFailed] \<and>
         loading_overlay (snd (search_click fetch (app, pg)))
           = map_option (\<lambda>_. False) (loading_overlay pg) \<and>
         loading_overlay (snd (search_click fetch (app, pg))) \<noteq> Some True"
proof -
  have d: "discover fetch ps ts sub (app, pg) =
           (None, app, showLoading False (raise_alert SearchFailed (showLoading True pg)))"
    using assms(6) discover_failed [of fetch ps ts sub app pg] by simp
  have s: "search_click fetch (app, pg) =
           (app, showLoading False (raise_alert SearchFailed (showLoading True pg)))"
    using assms(1,2) d
    by (simp add: search_click_def Let_def assms(3,4,5) [symmetric])
  have o: "map_option (\<lambda>_. False) (loading_overlay pg) \<noteq> Some True"
    by (cases "loading_overlay pg") simp_all
  show ?thesis
    using o by (simp add: d s showLoading_def raise_alert_def option.map_comp comp_def)
qed

theorem C7_failed_search_keeps_state_witness:
  "fst (discover http_500 [[0x30AB, 0x30F3, 0x30C8]] [] [0x6B74, 0x53F2]
          (step2_app, step2_page)) = None \<and>
   fst (search_click http_500 (step2_app, step2_page)) = step2_app \<and>
   step (snd (search_click http_500 (step2_app, step2_page))) = 2 \<and>
   loading_overlay (snd (search_click http_500 (step2_app, step2_page))) = Some False \<and>
   alerts (snd (search_click http_500 (step2_app, step2_page))) = [SearchFailed]"
proof -
  have m: "selectedMain step2_app = Some [0x30AB, 0x30F3, 0x30C8]"
    and n: "[0x30AB, 0x30F3, 0x30C8] \<noteq> ([] :: jsstring)"
    and p: "[[0x30AB, 0x30F3, 0x30C8]] =
             (if selectedMainType step2_app = Some Philosopher
              then [[0x30AB, 0x30F3, 0x30C8]] else [])"
    and t: "[] = (if selectedMainType step2_app = Some Theme
                  then [[0x30AB, 0x30F3, 0x30C8]] else [])"
    and s: "[0x6B74, 0x53F2] = (case selectedSub step2_app of None \<Rightarrow> [] | Some s \<Rightarrow> s)"
    by (simp_all add: step2_app_def)
  have f: "request_failed
             (http_500 \<lparr>payload_philosophers = [[0x30AB, 0x30F3, 0x30C8]], payload_themes = [],
                        search_query = [0x6B74, 0x53F2], top_k = 5\<rparr>)"
    by (simp add: http_500_def)
  note r = C7_failed_search_keeps_state [of step2_app "[0x30AB, 0x30F3, 0x30C8]"
      "[[0x30AB, 0x30F3, 0x30C8]]" "[]" "[0x6B74, 0x53F2]" http_500 step2_page,
      OF m n p t s f]
  have st: "step step2_page = 2" and al: "alerts step2_page = []"
    and lo: "loading_overlay step2_page = Some False"
    by (simp_all add: step2_page_def)
  from r show ?thesis
    by (simp only: st al lo option.map append_Nil)
qed

subsection \<open>The retry loop\<close>

lemma attempt_loop_free:
  "\<not> isCollidingStrict (fst (candidate pf a r w k)) (snd (candidate pf a r w k)) w itemHeight pls
   \<Longrightarrow> attempt_loop pf a r w pls n k = (candidate pf a r w k, n + 1, k + 2)"
  by (subst attempt_loop.simps) (simp add: Let_def)

lemma attempt_loop_collide:
  "isCollidingStrict (fst (candidate pf a r w k)) (snd (candidate pf a r w k)) w itemHeight pls
   \<Longrightarrow> n + 1 < 20
   \<Longrightarrow> attempt_loop pf a r w pls n k = attempt_loop pf a r w pls (n + 1) (k + 2)"
  by (subst attempt_loop.simps) (simp add: Let_def)

lemma attempt_loop_last:
  "19 \<le> n \<Longrightarrow> attempt_loop pf a r w pls n k = (candidate pf a r w k, n + 1, k + 2)"
  by (subst attempt_loop.simps) (simp add: Let_def)

text \<open>
  What the loop returns: it ran \<open>j + 1\<close> iterations, the first \<open>j\<close> candidates
  collided, the result is the last candidate; and when it stopped below 20 the
  last candidate does not collide.
\<close>

lemma attempt_loop_result:
  "attempt_loop pf a r w pls n k = (xy, n', k') \<Longrightarrow>
   (\<exists>j. n' = n + j + 1 \<and> k' = k + 2 * (j + 1) \<and> xy = candidate pf a r w (k + 2 * j) \<and>
        (\<forall>i<j. isCollidingStrict (fst (candidate pf a r w (k + 2 * i)))
                  (snd (candidate pf a r w (k + 2 * i))) w itemHeight pls \<and> n + i + 1 < 20)) \<and>
   (n' < 20 \<longrightarrow> \<not> isCollidingStrict (fst xy) (snd xy) w itemHeight pls) \<and>
   (n < 20 \<longrightarrow> n' \<le> 20)"
proof (induction pf a r w pls n k rule: attempt_loop.induct)
  case (1 pf a r w pls n k)
  let ?c = "candidate pf a r w k"
  show ?case
  proof (cases "isCollidingStrict (fst ?c) (snd ?c) w itemHeight pls \<and> n + 1 < 20")
    case True
    then have e: "attempt_loop pf a r w pls (n + 1) (k + 2) = (xy, n', k')"
      using "1.prems" attempt_loop_collide [of pf a r w k pls n] by simp
    from "1.IH" [OF refl refl True e]
    obtain j where j: "n' = n + 1 + j + 1" "k' = k + 2 + 2 * (j + 1)"
        "xy = candidate pf a r w (k + 2 + 2 * j)"
        "\<forall>i<j. isCollidingStrict (fst (candidate pf a r w (k + 2 + 2 * i)))
                  (snd (candidate pf a r w (k + 2 + 2 * i))) w itemHeight pls \<and>
                n + 1 + i + 1 < 20"
      and rest: "n' < 20 \<longrightarrow> \<not> isCollidingStrict (fst xy) (snd xy) w itemHeight pls"
        "n + 1 < 20 \<longrightarrow> n' \<le> 20"
      by blast
    have all: "\<forall>i<j + 1. isCollidingStrict (fst (candidate pf a r w (k + 2 * i)))
                  (snd (candidate pf a r w (k + 2 * i))) w itemHeight pls \<and> n + i + 1 < 20"
    proof (intro allI impI)
      fix i assume i: "i < j + 1"
      show "isCollidingStrict (fst (candidate pf a r w (k + 2 * i)))
                  (snd (candidate pf a r w (k + 2 * i))) w itemHeight pls \<and> n + i + 1 < 20"
      proof (cases i)
        case 0
        then show ?thesis using True by simp
      next
        case (Suc i')
        then have "i' < j" using i by simp
        then show ?thesis using j(4) Suc by (simp add: add.assoc)
      qed
    qed
    have "n' = n + (j + 1) + 1" "k' = k + 2 * ((j + 1) + 1)"
      "xy = candidate pf a r w (k + 2 * (j + 1))"
      using j by (simp_all add: add.assoc)
    then show ?thesis using all rest True by blast
  next
    case False
    have e: "attempt_loop pf a r w pls n k = (?c, n + 1, k + 2)"
      by (subst attempt_loop.simps, insert False, auto simp add: Let_def)
    then have r: "xy = ?c" "n' = n + 1" "k' = k + 2"
      using "1.prems" by simp_all
    have "n' = n + 0 + 1 \<and> k' = k + 2 * (0 + 1) \<and> xy = candidate pf a r w (k + 2 * 0) \<and>
        (\<forall>i<0. isCollidingStrict (fst (candidate pf a r w (k + 2 * i)))
                  (snd (candidate pf a r w (k + 2 * i))) w itemHeight pls \<and> n + i + 1 < 20)"
      using r by simp
    moreover have "n' < 20 \<longrightarrow> \<not> isCollidingStrict (fst xy) (snd xy) w itemHeight pls"
      using False r by auto
    moreover have "n < 20 \<longrightarrow> n' \<le> 20"
      using r by simp
    ultimately show ?thesis by blast
  qed
qed

lemma attempt_loop_is_candidate:
  "\<exists>j. fst (attempt_loop pf a r w pls n k) = candidate pf a r w (k + 2 * j)"
  using attempt_loop_result [of pf a r w pls n k] 
  by (cases "attempt_loop pf a r w pls n k") fastforce

lemma attempt_loop_accepts_free:
  "fst (snd (attempt_loop pf a r w pls n k)) < 20 \<Longrightarrow>
   \<not> isCollidingStrict (fst (fst (attempt_loop pf a r w pls n k)))
        (snd (fst (attempt_loop pf a r w pls n k))) w itemHeight pls"
  using attempt_loop_result [of pf a r w pls n k]
  by (cases "attempt_loop pf a r w pls n k") fastforce

text \<open>When the first 19 candidates all collide the loop ends with 20 attempts.\<close>

lemma attempt_loop_exhausted:
  "(\<forall>i. n + i < 19 \<longrightarrow>
      isCollidingStrict (fst (candidate pf a r w (k + 2 * i)))
        (snd (candidate pf a r w (k + 2 * i))) w itemHeight pls) \<Longrightarrow>
   n \<le> 19 \<Longrightarrow>
   attempt_loop pf a r w pls n k
     = (candidate pf a r w (k + 2 * (19 - n)), 20, k + 2 * (20 - n))"
proof (induction "19 - n" arbitrary: n k)
  case 0
  then have n: "n = 19" by simp
  show ?case using attempt_loop_last [of n pf a r w pls k] n by simp
next
  case (Suc m)
  then have lt: "n + 1 < 20" and m: "m = 19 - (n + 1)" and le: "n + 1 \<le> 19" by linarith+
  have c0: "isCollidingStrict (fst (candidate pf a r w k)) (snd (candidate pf a r w k)) w itemHeight pls"
    using Suc.prems(1) [rule_format, of 0] lt by simp
  have rest: "\<forall>i. (n + 1) + i < 19 \<longrightarrow>
      isCollidingStrict (fst (candidate pf a r w ((k + 2) + 2 * i)))
        (snd (candidate pf a r w ((k + 2) + 2 * i))) w itemHeight pls"
  proof (intro allI impI)
    fix i assume "(n + 1) + i < 19"
    then have "n + (i + 1) < 19" by simp
    from Suc.prems(1) [rule_format, OF this]
    show "isCollidingStrict (fst (candidate pf a r w ((k + 2) + 2 * i)))
        (snd (candidate pf a r w ((k + 2) + 2 * i))) w itemHeight pls"
      by (simp add: add.assoc add.commute)
  qed
  have "attempt_loop pf a r w pls n k = attempt_loop pf a r w pls (n + 1) (k + 2)"
    using attempt_loop_collide [OF c0 lt] .
  also have "\<dots> = (candidate pf a r w ((k + 2) + 2 * (19 - (n + 1))), 20, (k + 2) + 2 * (20 - (n + 1)))"
    using Suc.hyps(1) [OF m rest le] .
  also have "(k + 2) + 2 * (19 - (n + 1)) = k + 2 * (19 - n)"
    using le by simp
  also have "(k + 2) + 2 * (20 - (n + 1)) = k + 2 * (20 - n)"
    using le by simp
  finally show ?case .
qed

subsection \<open>Boxes\<close>

lemma separated_sym: "separated d a b \<longleftrightarrow> separated d b a"
  by (auto simp add: separated_def)

lemma separated_iff_expand: "separated d a b \<longleftrightarrow> \<not> boxes_intersect (expand d a) b"
  by (auto simp add: separated_def boxes_intersect_def expand_def)

lemma separated_twice_iff_expand_both:
  "separated (2 * d) a b \<longleftrightarrow> \<not> boxes_intersect (expand d a) (expand d b)"
  by (auto simp add: separated_def boxes_intersect_def expand_def)

lemma isCollidingStrict_iff:
  "isCollidingStrict x y w h pls \<longleftrightarrow>
     (\<exists>p \<in> set pls. \<not> separated 15 \<lparr>box_x = x, box_y = y, box_width = w, box_height = h\<rparr> p)"
  by (auto simp add: isCollidingStrict_def separated_def list_ex_iff)

lemma getItemWidth_values: "getItemWidth sz \<in> {80, 100, 120, 140, 160}"
proof -
  have "sz = 0 \<or> sz = 1 \<or> sz = 2 \<or> sz = 3 \<or> sz = 4 \<or> sz = 5 \<or> 5 < sz" by linarith
  then show ?thesis
    by (elim disjE) (simp_all add: getItemWidth_def)
qed

lemma getRandomSize_range: "1 \<le> getRandomSize rand \<and> getRandomSize rand \<le> 5"
  by (simp add: getRandomSize_def)

subsection \<open>Candidates are clamped\<close>

lemma candidate_lower: "5 \<le> fst (candidate pf a r w k) \<and> 5 \<le> snd (candidate pf a r w k)"
  by (simp add: candidate_def Let_def)

lemma candidate_upper_x:
  "w + 10 \<le> containerWidth pf \<Longrightarrow> fst (candidate pf a r w k) + w \<le> containerWidth pf - 5"
  by (simp add: candidate_def Let_def max_def min_def)

lemma candidate_upper_y:
  "50 \<le> containerHeight pf \<Longrightarrow>
   snd (candidate pf a r w k) + itemHeight \<le> containerHeight pf - 5"
  by (simp add: candidate_def Let_def max_def min_def itemHeight_def)

lemma candidate_narrow:
  "containerWidth pf \<le> w + 10 \<Longrightarrow> fst (candidate pf a r w k) = 5"
  by (simp add: candidate_def Let_def max_def min_def)

subsection \<open>The array of placements grows by accepted candidates only\<close>

lemma place_item_placed:
  "placed (place_item pf st it) = placed st \<or>
   (\<exists>sz j. placed (place_item pf st it) =
        placed st @ [\<lparr>box_x = fst (candidate pf (angle st) (radius st) (getItemWidth sz) j),
                      box_y = snd (candidate pf (angle st) (radius st) (getItemWidth sz) j),
                      box_width = getItemWidth sz, box_height = itemHeight\<rparr>] \<and>
      \<not> isCollidingStrict (fst (candidate pf (angle st) (radius st) (getItemWidth sz) j))
          (snd (candidate pf (angle st) (radius st) (getItemWidth sz) j))
          (getItemWidth sz) itemHeight (placed st))"
proof -
  define sz where "sz = getRandomSize (Math_random pf (calls st))"
  define res where
    "res = attempt_loop pf (angle st) (radius st) (getItemWidth sz) (placed st) 0 (calls st + 1)"
  show ?thesis
  proof (cases "fst (snd res) < 20")
    case False
    then have "placed (place_item pf st it) = placed st"
      by (simp add: place_item_def Let_def sz_def res_def)
    then show ?thesis by simp
  next
    case True
    obtain j where j: "fst res = candidate pf (angle st) (radius st) (getItemWidth sz) (calls st + 1 + 2 * j)"
      using attempt_loop_is_candidate [of pf "angle st" "radius st" "getItemWidth sz" "placed st" 0 "calls st + 1"]
      by (auto simp add: res_def)
    have free: "\<not> isCollidingStrict (fst (fst res)) (snd (fst res)) (getItemWidth sz) itemHeight (placed st)"
      using attempt_loop_accepts_free [of pf "angle st" "radius st" "getItemWidth sz" "placed st" 0 "calls st + 1"] True
      by (simp add: res_def)
    have "placed (place_item pf st it) =
        placed st @ [\<lparr>box_x = fst (fst res), box_y = snd (fst res),
                      box_width = getItemWidth sz, box_height = itemHeight\<rparr>]"
      using True by (simp add: place_item_def Let_def sz_def res_def)
    then show ?thesis using free j by metis
  qed
qed

lemma placed_foldl_induct:
  assumes "P (placed st0)"
    and "\<And>pls a r sz j. P pls \<Longrightarrow>
           \<not> isCollidingStrict (fst (candidate pf a r (getItemWidth sz) j))
               (snd (candidate pf a r (getItemWidth sz) j)) (getItemWidth sz) itemHeight pls \<Longrightarrow>
           P (pls @ [\<lparr>box_x = fst (candidate pf a r (getItemWidth sz) j),
                       box_y = snd (candidate pf a r (getItemWidth sz) j),
                       box_width = getItemWidth sz, box_height = itemHeight\<rparr>])"
  shows "P (placed (foldl (place_item pf) st0 its))"
  using assms(1)
proof (induction its arbitrary: st0)
  case Nil
  then show ?case by simp
next
  case (Cons it its)
  have "P (placed (place_item pf st0 it))"
    using place_item_placed [of pf st0 it] Cons.prems assms(2) by metis
  then show ?case using Cons.IH by simp
qed

lemma place_all_induct:
  assumes "P []"
    and "\<And>pls a r sz j. P pls \<Longrightarrow>
           \<not> isCollidingStrict (fst (candidate pf a r (getItemWidth sz) j))
               (snd (candidate pf a r (getItemWidth sz) j)) (getItemWidth sz) itemHeight pls \<Longrightarrow>
           P (pls @ [\<lparr>box_x = fst (candidate pf a r (getItemWidth sz) j),
                       box_y = snd (candidate pf a r (getItemWidth sz) j),
                       box_width = getItemWidth sz, box_height = itemHeight\<rparr>])"
  shows "P (placed (place_all pf its))"
  unfolding place_all_def
  by (rule placed_foldl_induct) (simp_all add: initial_loop_state_def assms)

subsection \<open>Invariants of the array of placements\<close>

lemma placements_clamped:
  "\<forall>p \<in> set (placed (place_all pf its)).
     5 \<le> box_x p \<and> 5 \<le> box_y p \<and>
     box_width p \<in> {80, 100, 120, 140, 160} \<and> box_height p = 40 \<and>
     (box_width p + 10 \<le> containerWidth pf \<longrightarrow> box_x p + box_width p \<le> containerWidth pf - 5) \<and>
     (50 \<le> containerHeight pf \<longrightarrow> box_y p + box_height p \<le> containerHeight pf - 5)"
proof -
  let ?Q = "\<lambda>p :: placement.
     5 \<le> box_x p \<and> 5 \<le> box_y p \<and>
     box_width p \<in> {80, 100, 120, 140, 160} \<and> box_height p = 40 \<and>
     (box_width p + 10 \<le> containerWidth pf \<longrightarrow> box_x p + box_width p \<le> containerWidth pf - 5) \<and>
     (50 \<le> containerHeight pf \<longrightarrow> box_y p + box_height p \<le> containerHeight pf - 5)"
  have "\<forall>p \<in> set (placed (place_all pf its)). ?Q p"
  proof (rule place_all_induct)
    show "\<forall>p \<in> set []. ?Q p" by simp
  next
    fix pls :: "placement list" and a r sz j
    assume IH: "\<forall>p \<in> set pls. ?Q p"
    let ?c = "candidate pf a r (getItemWidth sz) j"
    let ?b = "\<lparr>box_x = fst ?c, box_y = snd ?c, box_width = getItemWidth sz,
               box_height = itemHeight\<rparr>"
    have nb: "?Q ?b"
      using candidate_lower [of pf a r "getItemWidth sz" j] getItemWidth_values [of sz]
        candidate_upper_x [of "getItemWidth sz" pf a r j]
        candidate_upper_y [of pf a r "getItemWidth sz" j]
      by (simp add: itemHeight_def)
    show "\<forall>p \<in> set (pls @ [?b]). ?Q p"
    proof
      fix p assume "p \<in> set (pls @ [?b])"
      then consider "p \<in> set pls" | "p = ?b" by auto
      then show "?Q p"
      proof cases
        case 1
        then show ?thesis using IH by blast
      next
        case 2
        show ?thesis unfolding 2 by (rule nb)
      qed
    qed
  qed
  then show ?thesis .
qed

lemma placements_separated:
  "\<forall>i j. i < j \<and> j < length (placed (place_all pf its)) \<longrightarrow>
     separated 15 (placed (place_all pf its) ! i) (placed (place_all pf its) ! j)"
proof (rule place_all_induct)
  show "\<forall>i j. i < j \<and> j < length ([] :: placement list) \<longrightarrow> separated 15 ([] ! i) ([] ! j)"
    by simp
next
  fix pls :: "placement list" and a r sz j
  let ?c = "candidate pf a r (getItemWidth sz) j"
  let ?b = "\<lparr>box_x = fst ?c, box_y = snd ?c, box_width = getItemWidth sz, box_height = itemHeight\<rparr>"
  assume IH: "\<forall>i j. i < j \<and> j < length pls \<longrightarrow> separated 15 (pls ! i) (pls ! j)"
    and free: "\<not> isCollidingStrict (fst ?c) (snd ?c) (getItemWidth sz) itemHeight pls"
  have new: "\<forall>p \<in> set pls. separated 15 ?b p"
    using free by (simp add: isCollidingStrict_iff)
  show "\<forall>i k. i < k \<and> k < length (pls @ [?b]) \<longrightarrow>
          separated 15 ((pls @ [?b]) ! i) ((pls @ [?b]) ! k)"
  proof (intro allI impI)
    fix i k assume ik: "i < k \<and> k < length (pls @ [?b])"
    show "separated 15 ((pls @ [?b]) ! i) ((pls @ [?b]) ! k)"
    proof (cases "k < length pls")
      case True
      then show ?thesis using IH ik by (simp add: nth_append)
    next
      case False
      then have k: "k = length pls" using ik by simp
      then have "pls ! i \<in> set pls" using ik by simp
      then have "separated 15 ?b (pls ! i)" using new by blast
      then have "separated 15 (pls ! i) ?b" using separated_sym by blast
      then show ?thesis using k ik by (simp add: nth_append)
    qed
  qed
qed

subsection \<open>One step of the placement, evaluated\<close>

text \<open>The step for an item whose first candidate is free.\<close>

lemma place_item_first_free:
  assumes "sz = getRandomSize (Math_random pf (calls st))"
    and "c = candidate pf (angle st) (radius st) (getItemWidth sz) (calls st + 1)"
    and "\<not> isCollidingStrict (fst c) (snd c) (getItemWidth sz) itemHeight (placed st)"
    and "b = \<lparr>box_x = fst c, box_y = snd c, box_width = getItemWidth sz, box_height = itemHeight\<rparr>"
  shows "place_item pf st it =
           \<lparr>placed = placed st @ [b],
            angle = angle st + (0.5 + Math_random pf (calls st + 4) * 0.3),
            radius = radius st + ((if isMobile pf then 12 else 20)
                       + Math_random pf (calls st + 5) * (if isMobile pf then 8 else 15)),
            maxY = max (maxY st) (snd c + itemHeight),
            elements = elements st @ [(it, sz, b)],
            calls = calls st + 6\<rparr>"
proof -
  have "attempt_loop pf (angle st) (radius st) (getItemWidth sz) (placed st) 0 (calls st + 1)
          = (c, 0 + 1, calls st + 1 + 2)"
    using assms(3) unfolding assms(2) by (rule attempt_loop_free)
  then show ?thesis
    by (simp add: place_item_def Let_def assms(1,4) [symmetric] numeral_eq_Suc)
qed

text \<open>The step for an item whose first 19 candidates collide: nothing is placed.\<close>

lemma place_item_exhausted:
  assumes "sz = getRandomSize (Math_random pf (calls st))"
    and "\<forall>i<19. isCollidingStrict
           (fst (candidate pf (angle st) (radius st) (getItemWidth sz) (calls st + 1 + 2 * i)))
           (snd (candidate pf (angle st) (radius st) (getItemWidth sz) (calls st + 1 + 2 * i)))
           (getItemWidth sz) itemHeight (placed st)"
  shows "place_item pf st it =
           \<lparr>placed = placed st,
            angle = angle st + (0.5 + Math_random pf (calls st + 41) * 0.3),
            radius = radius st + ((if isMobile pf then 12 else 20)
                       + Math_random pf (calls st + 42) * (if isMobile pf then 8 else 15)),
            maxY = maxY st,
            elements = elements st,
            calls = calls st + 43\<rparr>"
proof -
  have "attempt_loop pf (angle st) (radius st) (getItemWidth sz) (placed st) 0 (calls st + 1)
          = (candidate pf (angle st) (radius st) (getItemWidth sz) (calls st + 1 + 2 * (19 - 0)),
             20, calls st + 1 + 2 * (20 - 0))"
    by (rule attempt_loop_exhausted) (use assms(2) in simp_all)
  then show ?thesis
    by (intro loop_state.equality)
      (simp_all add: place_item_def Let_def assms(1) [symmetric] add.commute)
qed

subsection \<open>The example container\<close>

lemma sin_lower_bound: "x - x ^ 3 / 6 \<le> sin x" if "0 \<le> x" for x :: real
proof -
  have s: "(\<Sum>m<3. sin_coeff m * x ^ m) = x"
    by (simp add: numeral_3_eq_3 sin_coeff_def)
  have "\<bar>sin x - x\<bar> \<le> inverse (fact 3) * \<bar>x\<bar> ^ 3"
    using Maclaurin_sin_bound [of x 3] by (simp only: s)
  moreover have "inverse (fact 3) * \<bar>x\<bar> ^ 3 = x ^ 3 / 6"
    using that by (simp add: fact_numeral)
  ultimately show ?thesis by linarith
qed

lemma narrow_page_bounds:
  "containerWidth (narrow_page rnd) = 85" "containerHeight (narrow_page rnd) = 180"
  "isMobile (narrow_page rnd)" "isSmallMobile (narrow_page rnd)"
  by (simp_all add: isMobile_def isSmallMobile_def containerWidth_def containerHeight_def
      narrow_page_def)

lemma narrow_page_candidate:
  assumes "rnd k = u" and "rnd (k + 1) = v"
  shows "candidate (narrow_page rnd) a r 120 k =
     (5, max 5 (min (70 + sin (a + (u - 1 / 2) * (3 / 10)) * (r + (v - 1 / 2) * 40)) 135))"
proof -
  have v: "rnd (Suc k) = v" using assms(2) by simp
  have "fst (candidate (narrow_page rnd) a r 120 k) = 5"
    by (rule candidate_narrow) (simp add: narrow_page_bounds)
  moreover have "snd (candidate (narrow_page rnd) a r 120 k) =
      max 5 (min (70 + sin (a + (u - 1 / 2) * (3 / 10)) * (r + (v - 1 / 2) * 40)) 135)"
    by (simp add: candidate_def Let_def narrow_page_bounds itemHeight_def)
      (simp add: narrow_page_def assms(1) v)
  ultimately show ?thesis by (simp add: prod_eq_iff)
qed

lemma narrow_page_first_item:
  assumes "rnd 0 = 1 / 2" "rnd 1 = 1 / 2" "rnd 2 = 1 / 2" "rnd 4 = 1 / 2" "rnd 5 = 1 / 2"
  shows "place_item (narrow_page rnd) (initial_loop_state (narrow_page rnd)) it =
           \<lparr>placed = [\<lparr>box_x = 5, box_y = 70, box_width = 120, box_height = 40\<rparr>],
            angle = 13 / 20, radius = 66, maxY = 110,
            elements = [(it, 3, \<lparr>box_x = 5, box_y = 70, box_width = 120, box_height = 40\<rparr>)],
            calls = 6\<rparr>"
proof -
  let ?pf = "narrow_page rnd"
  let ?st = "initial_loop_state ?pf"
  have r: "Math_random ?pf = rnd" by (simp add: narrow_page_def)
  have st: "placed ?st = []" "angle ?st = 0" "radius ?st = 50" "maxY ?st = 0"
    "elements ?st = []" "calls ?st = 0"
    by (simp_all add: initial_loop_state_def narrow_page_bounds)
  have sz: "3 = getRandomSize (Math_random ?pf (calls ?st))"
    by (simp add: st r assms getRandomSize_def)
  have w: "getItemWidth 3 = 120" by (simp add: getItemWidth_def)
  have "rnd (1 + 1) = 1 / 2" by (simp only: one_add_one assms(3))
  then have "candidate ?pf 0 50 120 1 = (5, 70)"
    using narrow_page_candidate [of rnd 1 "1 / 2" "1 / 2" 0 50] assms(2) by simp
  then have c: "(5, 70) = candidate ?pf (angle ?st) (radius ?st) (getItemWidth 3) (calls ?st + 1)"
    by (simp add: st w)
  have f: "\<not> isCollidingStrict (fst (5 :: real, 70 :: real)) (snd (5 :: real, 70 :: real))
             (getItemWidth 3) itemHeight (placed ?st)"
    by (simp add: st isCollidingStrict_def)
  have b: "\<lparr>box_x = 5, box_y = 70, box_width = 120, box_height = 40\<rparr> =
           \<lparr>box_x = fst (5 :: real, 70 :: real), box_y = snd (5 :: real, 70 :: real),
            box_width = getItemWidth 3, box_height = itemHeight\<rparr>"
    by (simp add: w itemHeight_def)
  show ?thesis
    by (subst place_item_first_free [OF sz c f b])
      (simp add: st r assms narrow_page_bounds itemHeight_def)
qed

text \<open>
  The second item in the example container: with the jitter values 1/2 its candidate
  collides with the first box, with the jitter values 15/16 it lies more than 15 below
  it and is free.
\<close>

lemma narrow_page_second_collides:
  assumes "rnd k = 1 / 2" "rnd (k + 1) = 1 / 2"
  shows "isCollidingStrict (fst (candidate (narrow_page rnd) (13 / 20) 66 120 k))
           (snd (candidate (narrow_page rnd) (13 / 20) 66 120 k)) 120 itemHeight
           [\<lparr>box_x = 5, box_y = 70, box_width = 120, box_height = 40\<rparr>]"
proof -
  have "\<bar>sin (13 / 20 :: real)\<bar> \<le> 13 / 20"
    using abs_sin_x_le_abs_x [of "13 / 20"] by simp
  then have "\<bar>sin (13 / 20 :: real) * 66\<bar> \<le> 13 / 20 * 66"
    by (simp add: abs_mult)
  then have "- 55 \<le> sin (13 / 20 :: real) * 66 \<and> sin (13 / 20 :: real) * 66 \<le> 55"
    by linarith
  then show ?thesis
    by (simp add: narrow_page_candidate [OF assms] isCollidingStrict_def itemHeight_def)
qed

lemma narrow_page_second_height:
  assumes "rnd k = 15 / 16" "rnd (k + 1) = 15 / 16"
  shows "125 < snd (candidate (narrow_page rnd) (13 / 20) 66 120 k) \<and>
         snd (candidate (narrow_page rnd) (13 / 20) 66 120 k) \<le> 135 \<and>
         fst (candidate (narrow_page rnd) (13 / 20) 66 120 k) = 5"
proof -
  have "25 / 32 - (25 / 32) ^ 3 / 6 \<le> sin (25 / 32 :: real)"
    by (rule sin_lower_bound) simp
  then have "7 / 10 \<le> sin (25 / 32 :: real)"
    by (simp add: power3_eq_cube)
  then have "7 / 10 * (167 / 2) \<le> sin (25 / 32 :: real) * (167 / 2)"
    by (simp only: mult_le_cancel_right) simp
  then have "55 < sin (25 / 32 :: real) * (167 / 2)"
    by simp
  then show ?thesis
    by (simp add: narrow_page_candidate [OF assms])
qed

lemma narrow_page_second_free:
  assumes "rnd k = 15 / 16" "rnd (k + 1) = 15 / 16"
  shows "\<not> isCollidingStrict (fst (candidate (narrow_page rnd) (13 / 20) 66 120 k))
           (snd (candidate (narrow_page rnd) (13 / 20) 66 120 k)) 120 itemHeight
           [\<lparr>box_x = 5, box_y = 70, box_width = 120, box_height = 40\<rparr>]"
  using narrow_page_second_height [OF assms]
  by (simp add: isCollidingStrict_def itemHeight_def)

subsection \<open>Two runs of the placement in the example container\<close>

lemma narrow_page_after_first:
  assumes "6 \<le> n"
  shows "place_item (narrow_page (jitter_at n)) (initial_loop_state (narrow_page (jitter_at n))) it =
           \<lparr>placed = [\<lparr>box_x = 5, box_y = 70, box_width = 120, box_height = 40\<rparr>],
            angle = 13 / 20, radius = 66, maxY = 110,
            elements = [(it, 3, \<lparr>box_x = 5, box_y = 70, box_width = 120, box_height = 40\<rparr>)],
            calls = 6\<rparr>"
  by (rule narrow_page_first_item) (use assms in \<open>simp_all add: jitter_at_def\<close>)

text \<open>
  Run A: the jitter of the first attempt of the second item is 15/16. Both items are
  placed, the second one between 15 and 25 below the first.
\<close>

lemma run_A_placed:
  "placed (place_all (narrow_page (jitter_at 7)) two_items) =
     [\<lparr>box_x = 5, box_y = 70, box_width = 120, box_height = 40\<rparr>,
      \<lparr>box_x = 5, box_y = snd (candidate (narrow_page (jitter_at 7)) (13 / 20) 66 120 7),
       box_width = 120, box_height = 40\<rparr>]"
proof -
  let ?pf = "narrow_page (jitter_at 7)"
  let ?b1 = "\<lparr>box_x = 5, box_y = 70, box_width = 120, box_height = 40\<rparr>"
  let ?i1 = "philosopher_item [0x30AB, 0x30F3, 0x30C8]"
  let ?i2 = "theme_item [0x5B58, 0x5728, 0x8AD6]"
  let ?s1 = "\<lparr>placed = [?b1], angle = 13 / 20, radius = 66, maxY = 110,
             elements = [(?i1, 3 :: nat, ?b1)], calls = 6\<rparr>"
  let ?c = "candidate ?pf (13 / 20) 66 120 7"
  have s1: "place_item ?pf (initial_loop_state ?pf) ?i1 = ?s1"
    by (rule narrow_page_after_first) simp
  have w: "getItemWidth 3 = 120" by (simp add: getItemWidth_def)
  have sz: "3 = getRandomSize (Math_random ?pf (calls ?s1))"
    by (simp add: narrow_page_def jitter_at_def getRandomSize_def)
  have c: "?c = candidate ?pf (angle ?s1) (radius ?s1) (getItemWidth 3) (calls ?s1 + 1)"
    by (simp add: w)
  have x: "fst ?c = 5"
    using narrow_page_second_height [of "jitter_at 7" 7] by (simp add: jitter_at_def)
  have f: "\<not> isCollidingStrict (fst ?c) (snd ?c) (getItemWidth 3) itemHeight (placed ?s1)"
    using narrow_page_second_free [of "jitter_at 7" 7] by (simp add: jitter_at_def w)
  have b: "\<lparr>box_x = 5, box_y = snd ?c, box_width = 120, box_height = 40\<rparr> =
           \<lparr>box_x = fst ?c, box_y = snd ?c, box_width = getItemWidth 3, box_height = itemHeight\<rparr>"
    by (simp add: w x itemHeight_def)
  have "placed (place_item ?pf ?s1 ?i2) =
          [?b1, \<lparr>box_x = 5, box_y = snd ?c, box_width = 120, box_height = 40\<rparr>]"
    by (subst place_item_first_free [OF sz c f b]) simp
  then show ?thesis
    by (simp add: place_all_def two_items_def s1)
qed

lemma run_A_second_height:
  "125 < snd (candidate (narrow_page (jitter_at 7)) (13 / 20) 66 120 7) \<and>
   snd (candidate (narrow_page (jitter_at 7)) (13 / 20) 66 120 7) \<le> 135"
  using narrow_page_second_height [of "jitter_at 7" 7] by (simp add: jitter_at_def)

text \<open>
  Run B: the jitter of the twentieth attempt of the second item is 15/16, all other
  random values are 1/2. The first 19 candidates of the second item collide with the
  first box; the twentieth, computed from the calls number 45 and 46, is free; the
  loop ends with \<open>attempts = 20\<close> and the item is not placed.
\<close>

lemma run_B_collisions:
  "\<forall>i<19. isCollidingStrict
      (fst (candidate (narrow_page (jitter_at 45)) (13 / 20) 66 120 (6 + 1 + 2 * i)))
      (snd (candidate (narrow_page (jitter_at 45)) (13 / 20) 66 120 (6 + 1 + 2 * i))) 120 itemHeight
      [\<lparr>box_x = 5, box_y = 70, box_width = 120, box_height = 40\<rparr>]"
proof (intro allI impI)
  fix i :: nat assume "i < 19"
  then have "jitter_at 45 (6 + 1 + 2 * i) = 1 / 2" "jitter_at 45 (6 + 1 + 2 * i + 1) = 1 / 2"
    by (simp_all add: jitter_at_def)
  then show "isCollidingStrict
      (fst (candidate (narrow_page (jitter_at 45)) (13 / 20) 66 120 (6 + 1 + 2 * i)))
      (snd (candidate (narrow_page (jitter_at 45)) (13 / 20) 66 120 (6 + 1 + 2 * i))) 120 itemHeight
      [\<lparr>box_x = 5, box_y = 70, box_width = 120, box_height = 40\<rparr>]"
    by (rule narrow_page_second_collides)
qed

lemma run_B_loop:
  "attempt_loop (narrow_page (jitter_at 45)) (13 / 20) 66 120
     [\<lparr>box_x = 5, box_y = 70, box_width = 120, box_height = 40\<rparr>] 0 7
   = (candidate (narrow_page (jitter_at 45)) (13 / 20) 66 120 45, 20, 47)"
proof -
  have "attempt_loop (narrow_page (jitter_at 45)) (13 / 20) 66 120
     [\<lparr>box_x = 5, box_y = 70, box_width = 120, box_height = 40\<rparr>] 0 7
   = (candidate (narrow_page (jitter_at 45)) (13 / 20) 66 120 (7 + 2 * (19 - 0)), 20,
      7 + 2 * (20 - 0))"
    by (rule attempt_loop_exhausted) (use run_B_collisions in simp_all)
  then show ?thesis by simp
qed

lemma run_B_state:
  "place_all (narrow_page (jitter_at 45)) two_items =
     \<lparr>placed = [\<lparr>box_x = 5, box_y = 70, box_width = 120, box_height = 40\<rparr>],
      angle = 13 / 10, radius = 82, maxY = 110,
      elements = [(philosopher_item [0x30AB, 0x30F3, 0x30C8], 3,
                   \<lparr>box_x = 5, box_y = 70, box_width = 120, box_height = 40\<rparr>)],
      calls = 49\<rparr>"
proof -
  let ?pf = "narrow_page (jitter_at 45)"
  let ?b1 = "\<lparr>box_x = 5, box_y = 70, box_width = 120, box_height = 40\<rparr>"
  let ?i1 = "philosopher_item [0x30AB, 0x30F3, 0x30C8]"
  let ?i2 = "theme_item [0x5B58, 0x5728, 0x8AD6]"
  let ?s1 = "\<lparr>placed = [?b1], angle = 13 / 20, radius = 66, maxY = 110,
             elements = [(?i1, 3 :: nat, ?b1)], calls = 6\<rparr>"
  have s1: "place_item ?pf (initial_loop_state ?pf) ?i1 = ?s1"
    by (rule narrow_page_after_first) simp
  have w: "getItemWidth 3 = 120" by (simp add: getItemWidth_def)
  have sz: "3 = getRandomSize (Math_random ?pf (calls ?s1))"
    by (simp add: narrow_page_def jitter_at_def getRandomSize_def)
  have all: "\<forall>i<19. isCollidingStrict
           (fst (candidate ?pf (angle ?s1) (radius ?s1) (getItemWidth 3) (calls ?s1 + 1 + 2 * i)))
           (snd (candidate ?pf (angle ?s1) (radius ?s1) (getItemWidth 3) (calls ?s1 + 1 + 2 * i)))
           (getItemWidth 3) itemHeight (placed ?s1)"
    using run_B_collisions by (simp add: w)
  have "place_item ?pf ?s1 ?i2 =
     \<lparr>placed = [?b1], angle = 13 / 10, radius = 82, maxY = 110,
      elements = [(?i1, 3, ?b1)], calls = 49\<rparr>"
    by (subst place_item_exhausted [OF sz all])
      (simp add: narrow_page_bounds, simp add: narrow_page_def jitter_at_def)
  then show ?thesis
    by (simp add: place_all_def two_items_def s1)
qed

lemma run_B_twentieth_free:
  "\<not> isCollidingStrict
      (fst (candidate (narrow_page (jitter_at 45)) (13 / 20) 66 120 45))
      (snd (candidate (narrow_page (jitter_at 45)) (13 / 20) 66 120 45)) 120 itemHeight
      [\<lparr>box_x = 5, box_y = 70, box_width = 120, box_height = 40\<rparr>]"
  by (rule narrow_page_second_free) (simp_all add: jitter_at_def)

subsection \<open>When an item is placed\<close>

lemma attempt_loop_accepts_iff:
  "fst (snd (attempt_loop pf a r w pls 0 k)) < 20 \<longleftrightarrow>
     (\<exists>i<19. \<not> isCollidingStrict (fst (candidate pf a r w (k + 2 * i)))
                 (snd (candidate pf a r w (k + 2 * i))) w itemHeight pls)"
proof -
  obtain xy n' k' where e: "attempt_loop pf a r w pls 0 k = (xy, n', k')"
    by (cases "attempt_loop pf a r w pls 0 k") auto
  from attempt_loop_result [OF e]
  obtain j where j: "n' = 0 + j + 1" "xy = candidate pf a r w (k + 2 * j)"
      "\<forall>i<j. isCollidingStrict (fst (candidate pf a r w (k + 2 * i)))
               (snd (candidate pf a r w (k + 2 * i))) w itemHeight pls \<and> 0 + i + 1 < 20"
    and free: "n' < 20 \<longrightarrow> \<not> isCollidingStrict (fst xy) (snd xy) w itemHeight pls"
    and le: "n' \<le> 20"
    by auto
  show ?thesis
  proof
    assume "fst (snd (attempt_loop pf a r w pls 0 k)) < 20"
    then have lt: "n' < 20" by (simp add: e)
    then have "j < 19" using j(1) by simp
    moreover have "\<not> isCollidingStrict (fst (candidate pf a r w (k + 2 * j)))
                 (snd (candidate pf a r w (k + 2 * j))) w itemHeight pls"
      using free lt j(2) by simp
    ultimately show "\<exists>i<19. \<not> isCollidingStrict (fst (candidate pf a r w (k + 2 * i)))
                 (snd (candidate pf a r w (k + 2 * i))) w itemHeight pls"
      by blast
  next
    assume "\<exists>i<19. \<not> isCollidingStrict (fst (candidate pf a r w (k + 2 * i)))
                 (snd (candidate pf a r w (k + 2 * i))) w itemHeight pls"
    then obtain i where i: "i < 19"
      "\<not> isCollidingStrict (fst (candidate pf a r w (k + 2 * i)))
                 (snd (candidate pf a r w (k + 2 * i))) w itemHeight pls"
      by blast
    have "\<not> i < j" using j(3) i(2) by blast
    then have "j < 19" using i(1) by simp
    then show "fst (snd (attempt_loop pf a r w pls 0 k)) < 20"
      using j(1) by (simp add: e)
  qed
qed

text \<open>
  An item is placed exactly when one of its first 19 candidates is free; the
  twentieth candidate is computed and tested, but never placed.
\<close>

lemma place_item_emits_iff:
  "length (placed (place_item pf st it)) = length (placed st) + 1 \<longleftrightarrow>
     (\<exists>i<19. \<not> isCollidingStrict
         (fst (candidate pf (angle st) (radius st)
                (getItemWidth (getRandomSize (Math_random pf (calls st)))) (calls st + 1 + 2 * i)))
         (snd (candidate pf (angle st) (radius st)
                (getItemWidth (getRandomSize (Math_random pf (calls st)))) (calls st + 1 + 2 * i)))
         (getItemWidth (getRandomSize (Math_random pf (calls st)))) itemHeight (placed st))"
proof -
  let ?w = "getItemWidth (getRandomSize (Math_random pf (calls st)))"
  let ?res = "attempt_loop pf (angle st) (radius st) ?w (placed st) 0 (calls st + 1)"
  have "length (placed (place_item pf st it)) = length (placed st) + 1 \<longleftrightarrow> fst (snd ?res) < 20"
    by (simp add: place_item_def Let_def)
  then show ?thesis
    using attempt_loop_accepts_iff [of pf "angle st" "radius st" ?w "placed st" "calls st + 1"]
    by simp
qed

lemma place_item_drops:
  "length (placed (place_item pf st it)) \<noteq> length (placed st) + 1 \<Longrightarrow>
   placed (place_item pf st it) = placed st \<and> elements (place_item pf st it) = elements st"
  by (simp add: place_item_def Let_def split: if_splits)

lemma displayWordcloudPage_places:
  "snd (displayWordcloudPage pf n st)
     = place_all pf (shuffle pf (slice_page n (currentPageIndex st) (allItems st)))"
  by (simp add: displayWordcloudPage_def Let_def select_page_def)

subsection \<open>The claims on the placement\<close>

lemma wide_page_placed:
  "placed (place_all (wide_page (jitter_at 45)) [philosopher_item [0x30AB, 0x30F3, 0x30C8]]) =
     [\<lparr>box_x = 532, box_y = 230, box_width = 120, box_height = 40\<rparr>]"
proof -
  let ?pf = "wide_page (jitter_at 45)"
  let ?st = "initial_loop_state ?pf"
  have bounds: "containerWidth ?pf = 1024" "containerHeight ?pf = 500"
    "\<not> isMobile ?pf" "\<not> isSmallMobile ?pf"
    by (simp_all add: isMobile_def isSmallMobile_def containerWidth_def containerHeight_def
        wide_page_def)
  have st: "placed ?st = []" "angle ?st = 0" "radius ?st = 80" "calls ?st = 0"
    by (simp_all add: initial_loop_state_def bounds)
  have r: "Math_random ?pf = jitter_at 45" by (simp add: wide_page_def)
  have sz: "3 = getRandomSize (Math_random ?pf (calls ?st))"
    by (simp add: st r jitter_at_def getRandomSize_def)
  have w: "getItemWidth 3 = 120" by (simp add: getItemWidth_def)
  have "candidate ?pf 0 80 120 (Suc 0) = (532, 230)"
    by (simp add: candidate_def Let_def bounds itemHeight_def)
      (simp add: wide_page_def jitter_at_def)
  then have c: "(532, 230) = candidate ?pf (angle ?st) (radius ?st) (getItemWidth 3) (calls ?st + 1)"
    by (simp add: st w)
  have f: "\<not> isCollidingStrict (fst (532 :: real, 230 :: real)) (snd (532 :: real, 230 :: real))
             (getItemWidth 3) itemHeight (placed ?st)"
    by (simp add: st isCollidingStrict_def)
  have b: "\<lparr>box_x = 532, box_y = 230, box_width = 120, box_height = 40\<rparr> =
           \<lparr>box_x = fst (532 :: real, 230 :: real), box_y = snd (532 :: real, 230 :: real),
            box_width = getItemWidth 3, box_height = itemHeight\<rparr>"
    by (simp add: w itemHeight_def)
  have "placed (place_item ?pf ?st (philosopher_item [0x30AB, 0x30F3, 0x30C8])) =
          [\<lparr>box_x = 532, box_y = 230, box_width = 120, box_height = 40\<rparr>]"
    by (subst place_item_first_free [OF sz c f b]) (simp add: st)
  then show ?thesis
    by (simp add: place_all_def)
qed

text \<open>
  C2 as stated fails. In run A both items are placed; the boxes are 120 wide at x = 5,
  the first at y = 70 and the second at a y between 125 and 135, so they are between
  15 and 25 apart. Expanded by 15 on all sides they intersect.
\<close>

theorem C2_both_expanded_counterexample:
  "\<not> (\<forall>i j. i < j \<and> j < length (placed (place_all (narrow_page (jitter_at 7)) two_items)) \<longrightarrow>
         \<not> boxes_intersect
             (expand 15 (placed (place_all (narrow_page (jitter_at 7)) two_items) ! i))
             (expand 15 (placed (place_all (narrow_page (jitter_at 7)) two_items) ! j)))"
proof
  assume a: "\<forall>i j. i < j \<and> j < length (placed (place_all (narrow_page (jitter_at 7)) two_items)) \<longrightarrow>
         \<not> boxes_intersect
             (expand 15 (placed (place_all (narrow_page (jitter_at 7)) two_items) ! i))
             (expand 15 (placed (place_all (narrow_page (jitter_at 7)) two_items) ! j))"
  have "(0 :: nat) < 1 \<and> 1 < length (placed (place_all (narrow_page (jitter_at 7)) two_items))"
    by (simp add: run_A_placed)
  with a have "\<not> boxes_intersect
             (expand 15 (placed (place_all (narrow_page (jitter_at 7)) two_items) ! 0))
             (expand 15 (placed (place_all (narrow_page (jitter_at 7)) two_items) ! 1))"
    by blast
  then show False
    using run_A_second_height by (simp add: run_A_placed boxes_intersect_def expand_def)
qed

text \<open>
  C2, amended. Any two placements of a page are more than 15 apart, horizontally or
  vertically: the box of either one, expanded by the padding of 15 on all sides, does
  not intersect the box of the other one as it is (nor do the two boxes intersect
  when each is expanded by half the padding). This holds for every item list, every
  container size and all results of the random source, cosine and sine.
\<close>

theorem C2_placements_apart:
  "i < j \<and> j < length (placed (place_all pf its)) \<longrightarrow>
     separated 15 (placed (place_all pf its) ! i) (placed (place_all pf its) ! j) \<and>
     \<not> boxes_intersect (expand 15 (placed (place_all pf its) ! j)) (placed (place_all pf its) ! i) \<and>
     \<not> boxes_intersect (expand 15 (placed (place_all pf its) ! i)) (placed (place_all pf its) ! j) \<and>
     \<not> boxes_intersect (expand (15 / 2) (placed (place_all pf its) ! i))
         (expand (15 / 2) (placed (place_all pf its) ! j))"
proof
  assume ij: "i < j \<and> j < length (placed (place_all pf its))"
  let ?a = "placed (place_all pf its) ! i" and ?b = "placed (place_all pf its) ! j"
  have s: "separated 15 ?a ?b"
    using placements_separated [of pf its] ij by blast
  then have s': "separated 15 ?b ?a"
    using separated_sym by blast
  have "separated (2 * (15 / 2)) ?a ?b" using s by simp
  then have h: "\<not> boxes_intersect (expand (15 / 2) ?a) (expand (15 / 2) ?b)"
    using separated_twice_iff_expand_both [of "15 / 2" ?a ?b] by blast
  have e1: "\<not> boxes_intersect (expand 15 ?b) ?a"
    using s' separated_iff_expand [of 15 ?b ?a] by blast
  have e2: "\<not> boxes_intersect (expand 15 ?a) ?b"
    using s separated_iff_expand [of 15 ?a ?b] by blast
  show "separated 15 ?a ?b \<and> \<not> boxes_intersect (expand 15 ?b) ?a \<and>
        \<not> boxes_intersect (expand 15 ?a) ?b \<and>
        \<not> boxes_intersect (expand (15 / 2) ?a) (expand (15 / 2) ?b)"
    using s e1 e2 h by blast
qed

theorem C2_placements_apart_witness:
  "length (placed (place_all (narrow_page (jitter_at 7)) two_items)) = 2 \<and>
   separated 15 (placed (place_all (narrow_page (jitter_at 7)) two_items) ! 0)
     (placed (place_all (narrow_page (jitter_at 7)) two_items) ! 1) \<and>
   \<not> boxes_intersect (expand 15 (placed (place_all (narrow_page (jitter_at 7)) two_items) ! 1))
       (placed (place_all (narrow_page (jitter_at 7)) two_items) ! 0)"
proof -
  have l: "length (placed (place_all (narrow_page (jitter_at 7)) two_items)) = 2"
    by (simp add: run_A_placed)
  then have "(0 :: nat) < 1 \<and> 1 < length (placed (place_all (narrow_page (jitter_at 7)) two_items))"
    by simp
  with C2_placements_apart [of 0 1 "narrow_page (jitter_at 7)" two_items] l
  show ?thesis by blast
qed

text \<open>
  C3 (the code misses the claim). In run B the first 19 candidates of the second
  item collide with the box of the first item and the twentieth candidate is free:
  a collision-free candidate is found within 20 attempts. The loop stops with
  \<open>attempts = 20\<close>, the test \<open>attempts < 20\<close> fails and the item is dropped: the page
  holds the first item only.
\<close>

theorem C3_twentieth_candidate_dropped:
  "attempt_loop (narrow_page (jitter_at 45)) (13 / 20) 66 120
     [\<lparr>box_x = 5, box_y = 70, box_width = 120, box_height = 40\<rparr>] 0 7
     = (candidate (narrow_page (jitter_at 45)) (13 / 20) 66 120 45, 20, 47) \<and>
   \<not> isCollidingStrict
      (fst (candidate (narrow_page (jitter_at 45)) (13 / 20) 66 120 45))
      (snd (candidate (narrow_page (jitter_at 45)) (13 / 20) 66 120 45)) 120 itemHeight
      [\<lparr>box_x = 5, box_y = 70, box_width = 120, box_height = 40\<rparr>] \<and>
   placed (place_all (narrow_page (jitter_at 45)) two_items)
     = [\<lparr>box_x = 5, box_y = 70, box_width = 120, box_height = 40\<rparr>] \<and>
   map fst (elements (place_all (narrow_page (jitter_at 45)) two_items))
     = [philosopher_item [0x30AB, 0x30F3, 0x30C8]] \<and>
   length two_items = 2"
  using run_B_loop run_B_twentieth_free
  by (simp add: run_B_state) (simp add: two_items_def)

text \<open>
  C4 as stated fails: in the container of run B the bounds are 85 wide and the box
  placed is 120 wide at x = 5, so it ends at 125, beyond 85 - 5.
\<close>

theorem C4_narrow_bounds_counterexample:
  "\<not> (\<forall>p \<in> set (placed (place_all (narrow_page (jitter_at 45)) two_items)).
         inside_bounds (narrow_page (jitter_at 45)) p)"
  by (simp add: run_B_state inside_bounds_def narrow_page_bounds)

text \<open>
  C4, amended. Every placement has x and y at least 5. Its right edge is at most
  the width of the bounds minus 5 when the bounds are at least 10 wider than the
  box, and its lower edge is at most the height of the bounds minus 5 when the
  bounds are at least 50 high; so every placement lies fully inside the bounds when
  these are at least 170 by 50, the widest box being 160 wide. In narrower or lower
  bounds the lower limit 5 wins and the box sticks out.
\<close>

theorem C4_placements_clamped:
  "p \<in> set (placed (place_all pf its)) \<longrightarrow>
     5 \<le> box_x p \<and> 5 \<le> box_y p \<and>
     (box_width p + 10 \<le> containerWidth pf \<longrightarrow> box_x p + box_width p \<le> containerWidth pf - 5) \<and>
     (box_height p + 10 \<le> containerHeight pf \<longrightarrow> box_y p + box_height p \<le> containerHeight pf - 5) \<and>
     (170 \<le> containerWidth pf \<and> 50 \<le> containerHeight pf \<longrightarrow> inside_bounds pf p)"
proof
  assume "p \<in> set (placed (place_all pf its))"
  then have q: "5 \<le> box_x p \<and> 5 \<le> box_y p \<and>
     box_width p \<in> {80, 100, 120, 140, 160} \<and> box_height p = 40 \<and>
     (box_width p + 10 \<le> containerWidth pf \<longrightarrow> box_x p + box_width p \<le> containerWidth pf - 5) \<and>
     (50 \<le> containerHeight pf \<longrightarrow> box_y p + box_height p \<le> containerHeight pf - 5)"
    using placements_clamped [of pf its] by blast
  then have "box_width p \<le> 160" by auto
  then have "170 \<le> containerWidth pf \<and> 50 \<le> containerHeight pf \<longrightarrow> inside_bounds pf p"
    using q by (auto simp add: inside_bounds_def)
  then show "5 \<le> box_x p \<and> 5 \<le> box_y p \<and>
     (box_width p + 10 \<le> containerWidth pf \<longrightarrow> box_x p + box_width p \<le> containerWidth pf - 5) \<and>
     (box_height p + 10 \<le> containerHeight pf \<longrightarrow> box_y p + box_height p \<le> containerHeight pf - 5) \<and>
     (170 \<le> containerWidth pf \<and> 50 \<le> containerHeight pf \<longrightarrow> inside_bounds pf p)"
    using q by auto
qed

theorem C4_placements_clamped_witness:
  "\<lparr>box_x = 532, box_y = 230, box_width = 120, box_height = 40\<rparr>
     \<in> set (placed (place_all (wide_page (jitter_at 45)) [philosopher_item [0x30AB, 0x30F3, 0x30C8]])) \<and>
   containerWidth (wide_page (jitter_at 45)) = 1024 \<and>
   containerHeight (wide_page (jitter_at 45)) = 500 \<and>
   inside_bounds (wide_page (jitter_at 45))
     \<lparr>box_x = 532, box_y = 230, box_width = 120, box_height = 40\<rparr>"
proof -
  let ?p = "\<lparr>box_x = 532, box_y = 230, box_width = 120, box_height = 40\<rparr>"
  have m: "?p \<in> set (placed (place_all (wide_page (jitter_at 45))
              [philosopher_item [0x30AB, 0x30F3, 0x30C8]]))"
    by (simp add: wide_page_placed)
  have b: "containerWidth (wide_page (jitter_at 45)) = 1024"
    "containerHeight (wide_page (jitter_at 45)) = 500"
    by (simp_all add: containerWidth_def containerHeight_def wide_page_def)
  then have "170 \<le> containerWidth (wide_page (jitter_at 45)) \<and>
             50 \<le> containerHeight (wide_page (jitter_at 45))"
    by simp
  with C4_placements_clamped [of ?p "wide_page (jitter_at 45)"
      "[philosopher_item [0x30AB, 0x30F3, 0x30C8]]"] m
  have "inside_bounds (wide_page (jitter_at 45)) ?p" by blast
  with m b show ?thesis by simp
qed

end
